theory Spec2Isabelle
  imports Complex_Main "HOL-Library.Word"
begin

section \<open>Data model of the editor component (App.tsx)\<close>

text \<open>
  The editor is one React component. Its \<open>useState\<close> and \<open>useRef\<close> cells are the
  fields of the record \<open>app_state\<close>; every handler is a function from the state it
  is called in to the state after it. The two mask subsystems of the source (the
  variables prefixed \<open>magicFill...\<close> and \<open>freestyle...\<close>) hold the same seven cells
  each and are selected everywhere by \<open>activeTab === 'magicfill' ? ... : ...\<close>; each is
  one \<open>mask_state\<close> record here, with the prefix dropped from the field names.

  JavaScript strings are sequences of UTF-16 code units. A finite number is a
  rational. The arithmetic of \<open>handleImageClick\<close> rounds to IEEE doubles (section
  on point selection); the position of a pointer on a mask canvas is handed to
  the path of a stroke as the exact difference. Counts and sizes are naturals,
  the history cursor is an integer because it takes the value \<open>-1\<close>. Uploaded and generated images are opaque and stand as numbered
  blobs; a mask file is the PNG of a canvas bitmap and carries that bitmap.
\<close>

type_synonym byte = "8 word"
type_synonym jsstring = "16 word list"
type_synonym point = "rat \<times> rat"

datatype pixel = Pixel (red: byte) (green: byte) (blue: byte) (alpha: byte)

record canvas =
  cwidth :: nat
  cheight :: nat
  bitmap :: "pixel list"
  subpath :: "point list"
  cleft :: rat
  ctop :: rat

record imagedata =
  iwidth :: nat
  iheight :: nat
  idata :: "byte list"

datatype jsfile = ImageFile nat | MaskPng nat nat "pixel list"

datatype coord = Finite int | NonFinite

datatype jsnum = Num rat | NotFinite

datatype tab = Retouch | Magicfill | Freestyle | Combine | Faceswap | Adjust | Filters | Crop

datatype placement = Blend | Overlay | TopLeft | TopRight | BottomLeft | BottomRight

datatype failure = Blocked | NoImageReturned | OtherError | NotAnError

datatype op_context = CtxRetouch | CtxMagicFill | CtxFreestyle

datatype message =
    NoImageLoaded
  | NoPrompt
  | NoHotspot
  | NoMaskPainted
  | NoMaskContext
  | PolicyBlock op_context
  | NoResult op_context
  | Failed op_context
  | Unexpected op_context

datatype loading = Retouching | Filling | Imagining

record crop_rect =
  crop_x :: rat
  crop_y :: rat
  crop_width :: rat
  crop_height :: rat

record img_element =
  naturalWidth :: nat
  naturalHeight :: nat
  clientWidth :: nat
  clientHeight :: nat
  rect_left :: rat
  rect_top :: rat

record mask_state =
  brushSize :: nat
  isErasing :: bool
  isMaskDrawn :: bool
  canvasRef :: "canvas option"
  isDrawingRef :: bool
  maskHistoryRef :: "imagedata list"
  canUndoMask :: bool

record app_state =
  history :: "jsfile list"
  historyIndex :: int
  prompt :: jsstring
  loadingMessage :: "loading option"
  error :: "message option"
  editHotspot :: "(coord \<times> coord) option"
  displayHotspot :: "(jsnum \<times> jsnum) option"
  activeTab :: tab
  secondaryImage :: "jsfile option"
  crop :: "crop_rect option"
  completedCrop :: "crop_rect option"
  imgRef :: "img_element option"
  magicFillPrompt :: jsstring
  magicFill :: mask_state
  freestyle :: mask_state
  combinePlacement :: placement

text \<open>The initial values of the \<open>useState\<close> and \<open>useRef\<close> calls.\<close>

definition initial_mask :: mask_state where
  "initial_mask =
     \<lparr>brushSize = 30, isErasing = False, isMaskDrawn = False, canvasRef = None,
      isDrawingRef = False, maskHistoryRef = [], canUndoMask = False\<rparr>"

definition initial_state :: app_state where
  "initial_state =
     \<lparr>history = [], historyIndex = -1, prompt = [], loadingMessage = None, error = None,
      editHotspot = None, displayHotspot = None, activeTab = Retouch,
      secondaryImage = None, crop = None, completedCrop = None, imgRef = None,
      magicFillPrompt = [], magicFill = initial_mask, freestyle = initial_mask,
      combinePlacement = Blend\<rparr>"

section \<open>Snapshot history\<close>

text \<open>
  \<open>Array.prototype.slice(0, end)\<close>: a negative \<open>end\<close> counts from the end of the
  array, and both bounds are clamped to the array.
\<close>

definition slice0 :: "'a list \<Rightarrow> int \<Rightarrow> 'a list" where
  "slice0 xs e =
     (let n = int (length xs);
          k = (if e < 0 then max (n + e) 0 else min e n)
      in take (nat k) xs)"

text \<open>\<open>xs[i] ?? null\<close>: an index outside the array reads \<open>undefined\<close>.\<close>

definition at_index :: "'a list \<Rightarrow> int \<Rightarrow> 'a option" where
  "at_index xs i = (if 0 \<le> i \<and> i < int (length xs) then Some (xs ! nat i) else None)"

definition currentImage :: "app_state \<Rightarrow> jsfile option" where
  "currentImage s = at_index (history s) (historyIndex s)"

definition originalImage :: "app_state \<Rightarrow> jsfile option" where
  "originalImage s = at_index (history s) 0"

definition canUndo :: "app_state \<Rightarrow> bool" where
  "canUndo s \<longleftrightarrow> historyIndex s > 0"

definition canRedo :: "app_state \<Rightarrow> bool" where
  "canRedo s \<longleftrightarrow> historyIndex s < int (length (history s)) - 1"

definition addImageToHistory :: "jsfile \<Rightarrow> app_state \<Rightarrow> app_state" where
  "addImageToHistory newImageFile s =
     (let newHistory = slice0 (history s) (historyIndex s + 1) @ [newImageFile]
      in s\<lparr>history := newHistory,
           historyIndex := int (length newHistory) - 1,
           crop := None,
           completedCrop := None,
           secondaryImage := None,
           combinePlacement := Blend\<rparr>)"

definition handleImageUpload :: "jsfile \<Rightarrow> app_state \<Rightarrow> app_state" where
  "handleImageUpload f s =
     s\<lparr>error := None, history := [f], historyIndex := 0, editHotspot := None,
       displayHotspot := None, activeTab := Retouch, crop := None, completedCrop := None,
       secondaryImage := None, combinePlacement := Blend\<rparr>"

definition handleUndo :: "app_state \<Rightarrow> app_state" where
  "handleUndo s =
     (if canUndo s
      then s\<lparr>historyIndex := historyIndex s - 1, editHotspot := None,
             displayHotspot := None, secondaryImage := None, combinePlacement := Blend\<rparr>
      else s)"

definition handleRedo :: "app_state \<Rightarrow> app_state" where
  "handleRedo s =
     (if canRedo s
      then s\<lparr>historyIndex := historyIndex s + 1, editHotspot := None,
             displayHotspot := None, secondaryImage := None, combinePlacement := Blend\<rparr>
      else s)"

definition handleReset :: "app_state \<Rightarrow> app_state" where
  "handleReset s =
     (if length (history s) > 0
      then s\<lparr>historyIndex := 0, error := None, editHotspot := None,
             displayHotspot := None, secondaryImage := None, combinePlacement := Blend\<rparr>
      else s)"

definition handleUploadNew :: "app_state \<Rightarrow> app_state" where
  "handleUploadNew s =
     s\<lparr>history := [], historyIndex := -1, error := None, prompt := [],
       editHotspot := None, displayHotspot := None, secondaryImage := None,
       combinePlacement := Blend\<rparr>"

text \<open>
  Sequences of history operations: each constructor is one call of the handler
  of the same name.
\<close>

datatype history_op = Append jsfile | Undo | Redo | Reset

fun apply_op :: "app_state \<Rightarrow> history_op \<Rightarrow> app_state" where
  "apply_op s (Append f) = addImageToHistory f s"
| "apply_op s Undo = handleUndo s"
| "apply_op s Redo = handleRedo s"
| "apply_op s Reset = handleReset s"

definition run_ops :: "app_state \<Rightarrow> history_op list \<Rightarrow> app_state" where
  "run_ops s ops = foldl apply_op s ops"

definition cursor_ok :: "app_state \<Rightarrow> bool" where
  "cursor_ok s \<longleftrightarrow>
     - 1 \<le> historyIndex s \<and> historyIndex s \<le> int (length (history s)) - 1 \<and>
     (historyIndex s = - 1 \<longleftrightarrow> history s = [])"

section \<open>Point selection (handleImageClick)\<close>

text \<open>
  A pointer event carries the viewport coordinates \<open>clientX\<close>, \<open>clientY\<close> (for a
  touch event those of \<open>touches[0]\<close>).

  The arithmetic of \<open>handleImageClick\<close> is that of JavaScript numbers, IEEE 754
  binary64 with rounding to nearest, ties to even. A finite double is carried as
  the rational it denotes (\<open>Num\<close>); the infinities and NaN are the one value
  \<open>NotFinite\<close>, and the sign of a zero is not tracked (\<open>Math.round\<close> gives an
  integer zero for either). \<open>binade q\<close> is the exponent \<open>e\<close> with
  \<open>2^e \<le> q < 2^(e+1)\<close>; \<open>fl q\<close> is the double nearest to \<open>q\<close>: a multiple of
  \<open>2^(e-52)\<close>, where the exponent is not taken below \<open>-1022\<close> (subnormal numbers),
  and a result that reaches \<open>2^1024\<close> overflows. Every operator returns \<open>fl\<close> of
  the exact result. A division by zero gives an infinity or NaN, and so does any
  product with one of those. \<open>Math.round\<close> rounds to the nearest integer with ties
  towards plus infinity, which is \<open>round\<close> of HOL (\<open>round x = \<lfloor>x + 1/2\<rfloor>\<close>), and
  returns a non-finite argument as it is. The natural and client sizes of an
  image element are unsigned 32-bit integers, which are doubles.
\<close>

record pointer =
  clientX :: rat
  clientY :: rat













section \<open>The canvas operations the component calls\<close>

text \<open>
  A canvas bitmap is a row-major list of RGBA pixels; pixel \<open>(x, y)\<close> is entry
  \<open>y * cwidth + x\<close>. \<open>ImageData.data\<close> is the flat \<open>Uint8ClampedArray\<close> of the same
  pixels, four bytes each. The operations follow the HTML canvas interface:
  \<^item> \<open>getImageData(0, 0, w, h)\<close> throws when \<open>w\<close> or \<open>h\<close> is zero (\<open>None\<close>);
  \<^item> \<open>putImageData(img, 0, 0)\<close> overwrites the rectangle the image covers;
  \<^item> \<open>drawImage\<close> composites with \<open>source-over\<close> and throws when the source
    canvas has no pixels (\<open>None\<close>); the blend of a partly transparent source is
    rounded down, and it is exact where the source is opaque, where it is fully
    transparent over an opaque pixel, and over a fully transparent pixel;
  \<^item> \<open>getContext('2d')\<close> is taken to succeed.
  The rasterisation of a stroked path is the browser's; it is a parameter \<open>R\<close>,
  which gives the new value of each pixel from the stroke style, the path and the
  old value.
\<close>

definition transparent :: pixel where
  "transparent = Pixel 0 0 0 0"

definition black :: pixel where
  "black = Pixel 0 0 0 255"

definition white :: pixel where
  "white = Pixel 255 255 255 255"

definition createCanvas :: "nat \<Rightarrow> nat \<Rightarrow> canvas" where
  "createCanvas w h =
     \<lparr>cwidth = w, cheight = h, bitmap = replicate (w * h) transparent, subpath = [],
      cleft = 0, ctop = 0\<rparr>"

definition blend :: "nat \<Rightarrow> nat \<Rightarrow> nat \<Rightarrow> byte \<Rightarrow> byte \<Rightarrow> byte" where
  "blend sa da oa sc dc =
     (if oa = 0 then 0
      else of_nat ((unat sc * sa + unat dc * da * (255 - sa) div 255) div oa))"

definition source_over :: "pixel \<Rightarrow> pixel \<Rightarrow> pixel" where
  "source_over s d =
     (let sa = unat (alpha s);
          da = unat (alpha d);
          oa = sa + da * (255 - sa) div 255
      in Pixel (blend sa da oa (red s) (red d)) (blend sa da oa (green s) (green d))
           (blend sa da oa (blue s) (blue d)) (of_nat oa))"

definition fillRect :: "pixel \<Rightarrow> canvas \<Rightarrow> canvas" where
  "fillRect colour c = c\<lparr>bitmap := map (source_over colour) (bitmap c)\<rparr>"

definition clearRect :: "canvas \<Rightarrow> canvas" where
  "clearRect c = c\<lparr>bitmap := map (\<lambda>_. transparent) (bitmap c)\<rparr>"

definition bytes_of :: "pixel \<Rightarrow> byte list" where
  "bytes_of p = [red p, green p, blue p, alpha p]"

fun pixels_of :: "byte list \<Rightarrow> pixel list" where
  "pixels_of (r # g # b # a # rest) = Pixel r g b a # pixels_of rest"
| "pixels_of _ = []"

definition getImageData :: "canvas \<Rightarrow> imagedata option" where
  "getImageData c =
     (if cwidth c = 0 \<or> cheight c = 0 then None
      else Some \<lparr>iwidth = cwidth c, iheight = cheight c,
                 idata = concat (map bytes_of (bitmap c))\<rparr>)"

definition putImageData :: "imagedata \<Rightarrow> canvas \<Rightarrow> canvas" where
  "putImageData img c =
     c\<lparr>bitmap :=
         map (\<lambda>i. let x = i mod cwidth c; y = i div cwidth c
                  in if x < iwidth img \<and> y < iheight img
                     then pixels_of (idata img) ! (y * iwidth img + x)
                     else bitmap c ! i)
           [0..<length (bitmap c)]\<rparr>"

definition drawImage :: "canvas \<Rightarrow> canvas \<Rightarrow> canvas option" where
  "drawImage src dst =
     (if cwidth src = 0 \<or> cheight src = 0 then None
      else Some (dst\<lparr>bitmap :=
         map (\<lambda>i. let x = i mod cwidth dst; y = i div cwidth dst
                  in if x < cwidth src \<and> y < cheight src
                     then source_over (bitmap src ! (y * cwidth src + x)) (bitmap dst ! i)
                     else bitmap dst ! i)
           [0..<length (bitmap dst)]\<rparr>))"

text \<open>
  The five-argument \<open>drawImage(src, 0, 0, w, h)\<close> scales the source to the box
  \<open>w \<times> h\<close> before it composites. Image smoothing is on by default and the
  component does not turn it off, so the browser interpolates: a pixel of the box
  is a weighted sum of source pixels. Which source pixels and which weights is
  the browser's choice; it is the parameter \<open>filt\<close> of every function that
  scales, giving for the size of the source, the box and a pixel of the box the
  list of taps (a source position and its weight). The sum is taken on colours
  premultiplied by alpha, as canvas bitmaps are stored, and the result is rounded
  to bytes: the alpha is the weighted sum of the alphas, a colour channel is the
  weighted sum of alpha times channel, divided by that alpha. A tap outside the
  source counts as transparent.

  \<open>bilinear\<close> is the usual filter: pixel centres are mapped linearly to the
  source, the four pixels around the mapped centre are weighted by their
  distance to it, and positions beyond an edge take the edge pixel.
\<close>

type_synonym resampler =
  "nat \<times> nat \<Rightarrow> nat \<times> nat \<Rightarrow> nat \<times> nat \<Rightarrow> ((nat \<times> nat) \<times> rat) list"

definition clamp_index :: "int \<Rightarrow> nat \<Rightarrow> nat" where
  "clamp_index i n = nat (max 0 (min i (int n - 1)))"

definition bilinear :: resampler where
  "bilinear src box xy =
     (let u = (of_nat (fst xy) + 1 / 2) * of_nat (fst src) / of_nat (fst box) - 1 / 2;
          v = (of_nat (snd xy) + 1 / 2) * of_nat (snd src) / of_nat (snd box) - 1 / 2;
          x0 = \<lfloor>u\<rfloor>; y0 = \<lfloor>v\<rfloor>;
          fx = u - of_int x0; fy = v - of_int y0;
          l = clamp_index x0 (fst src); r = clamp_index (x0 + 1) (fst src);
          t = clamp_index y0 (snd src); b = clamp_index (y0 + 1) (snd src)
      in [((l, t), (1 - fx) * (1 - fy)), ((r, t), fx * (1 - fy)),
          ((l, b), (1 - fx) * fy), ((r, b), fx * fy)])"

definition tap_pixel :: "canvas \<Rightarrow> nat \<times> nat \<Rightarrow> pixel" where
  "tap_pixel src sxy =
     (if fst sxy < cwidth src \<and> snd sxy < cheight src
      then bitmap src ! (snd sxy * cwidth src + fst sxy)
      else transparent)"

definition to_byte :: "rat \<Rightarrow> byte" where
  "to_byte q = of_nat (nat (min 255 (max 0 (round q))))"

definition weighted :: "canvas \<Rightarrow> ((nat \<times> nat) \<times> rat) list \<Rightarrow> (pixel \<Rightarrow> rat) \<Rightarrow> rat" where
  "weighted src taps f = sum_list (map (\<lambda>t. snd t * f (tap_pixel src (fst t))) taps)"

definition resample :: "resampler \<Rightarrow> canvas \<Rightarrow> nat \<times> nat \<Rightarrow> nat \<times> nat \<Rightarrow> pixel" where
  "resample filt src box xy =
     (let taps = filt (cwidth src, cheight src) box xy;
          a = weighted src taps (\<lambda>p. of_nat (unat (alpha p)))
      in if a \<le> 0 then transparent
         else Pixel
           (to_byte (weighted src taps (\<lambda>p. of_nat (unat (alpha p)) * of_nat (unat (red p))) / a))
           (to_byte (weighted src taps (\<lambda>p. of_nat (unat (alpha p)) * of_nat (unat (green p))) / a))
           (to_byte (weighted src taps (\<lambda>p. of_nat (unat (alpha p)) * of_nat (unat (blue p))) / a))
           (to_byte a))"

definition drawImageScaled :: "resampler \<Rightarrow> canvas \<Rightarrow> nat \<times> nat \<Rightarrow> canvas \<Rightarrow> canvas option" where
  "drawImageScaled filt src box dst =
     (if cwidth src = 0 \<or> cheight src = 0 then None
      else Some (dst\<lparr>bitmap :=
         map (\<lambda>i. let xy = (i mod cwidth dst, i div cwidth dst)
                  in if fst xy < fst box \<and> snd xy < snd box
                     then source_over (resample filt src box xy) (bitmap dst ! i)
                     else bitmap dst ! i)
           [0..<length (bitmap dst)]\<rparr>))"

datatype composite = SourceOver | DestinationOut

record stroke_style =
  lineWidth :: nat
  globalCompositeOperation :: composite
  strokeStyle :: "nat \<times> nat \<times> nat \<times> rat"

type_synonym rasterizer = "stroke_style \<Rightarrow> point list \<Rightarrow> nat \<times> nat \<Rightarrow> pixel \<Rightarrow> pixel"

definition beginPath :: "canvas \<Rightarrow> canvas" where
  "beginPath c = c\<lparr>subpath := []\<rparr>"

definition moveTo :: "point \<Rightarrow> canvas \<Rightarrow> canvas" where
  "moveTo p c = c\<lparr>subpath := [p]\<rparr>"

definition lineTo :: "point \<Rightarrow> canvas \<Rightarrow> canvas" where
  "lineTo p c = c\<lparr>subpath := subpath c @ [p]\<rparr>"

definition closePath :: "canvas \<Rightarrow> canvas" where
  "closePath c =
     c\<lparr>subpath := (case subpath c of [] \<Rightarrow> [] | p # ps \<Rightarrow> p # ps @ [p])\<rparr>"

definition stroke :: "rasterizer \<Rightarrow> stroke_style \<Rightarrow> canvas \<Rightarrow> canvas" where
  "stroke R style c =
     c\<lparr>bitmap :=
         map (\<lambda>i. R style (subpath c) (i mod cwidth c, i div cwidth c) (bitmap c ! i))
           [0..<length (bitmap c)]\<rparr>"

text \<open>
  \<open>toDataURL\<close> followed by \<open>dataURLtoFile\<close>. A canvas without pixels encodes to
  \<open>"data:,"\<close>, in which \<open>dataURLtoFile\<close> finds no MIME type and throws.
\<close>

definition maskFile :: "canvas \<Rightarrow> jsfile option" where
  "maskFile c =
     (if cwidth c = 0 \<or> cheight c = 0 then None
      else Some (MaskPng (cwidth c) (cheight c) (bitmap c)))"

section \<open>Mask painting\<close>

definition activeMask :: "app_state \<Rightarrow> mask_state" where
  "activeMask s = (if activeTab s = Magicfill then magicFill s else freestyle s)"

definition setActiveMask :: "mask_state \<Rightarrow> app_state \<Rightarrow> app_state" where
  "setActiveMask m s =
     (if activeTab s = Magicfill then s\<lparr>magicFill := m\<rparr> else s\<lparr>freestyle := m\<rparr>)"

definition getCoords :: "pointer \<Rightarrow> canvas \<Rightarrow> point" where
  "getCoords e c = (clientX e - cleft c, clientY e - ctop c)"

definition startDrawing :: "pointer \<Rightarrow> app_state \<Rightarrow> app_state" where
  "startDrawing e s =
     (if loadingMessage s \<noteq> None \<or> (activeTab s \<noteq> Magicfill \<and> activeTab s \<noteq> Freestyle)
      then s
      else
        let m = activeMask s in
        case canvasRef m of
          None \<Rightarrow> s
        | Some c \<Rightarrow>
            (case getImageData c of
               None \<Rightarrow> s
             | Some snapshot \<Rightarrow>
                 setActiveMask
                   (m\<lparr>maskHistoryRef := maskHistoryRef m @ [snapshot],
                      canUndoMask := True,
                      isDrawingRef := True,
                      canvasRef := Some (moveTo (getCoords e c) (beginPath c))\<rparr>) s))"

definition draw :: "rasterizer \<Rightarrow> pointer \<Rightarrow> app_state \<Rightarrow> app_state" where
  "draw R e s =
     (let m = activeMask s in
      case canvasRef m of
        None \<Rightarrow> s
      | Some c \<Rightarrow>
          if \<not> isDrawingRef m then s
          else
            let style =
                  (if isErasing m
                   then \<lparr>lineWidth = brushSize m, globalCompositeOperation = DestinationOut,
                         strokeStyle = (0, 0, 0, 1)\<rparr>
                   else \<lparr>lineWidth = brushSize m, globalCompositeOperation = SourceOver,
                         strokeStyle = (if activeTab s = Magicfill
                                        then (74, 144, 226, 6 / 10)
                                        else (234, 179, 8, 6 / 10))\<rparr>)
            in setActiveMask
                 (m\<lparr>canvasRef := Some (stroke R style (lineTo (getCoords e c) c))\<rparr>) s)"

text \<open>
  \<open>data.some(channel => channel !== 0)\<close> on the flat byte array. \<open>stopDrawing\<close>
  closes the path before it reads the pixels; closing a path draws nothing.
\<close>

definition hasDrawing :: "imagedata \<Rightarrow> bool" where
  "hasDrawing img = list_ex (\<lambda>channel. channel \<noteq> 0) (idata img)"

definition stopDrawing :: "app_state \<Rightarrow> app_state" where
  "stopDrawing s =
     (let m = activeMask s in
      case canvasRef m of
        None \<Rightarrow> s
      | Some c \<Rightarrow>
          if \<not> isDrawingRef m then s
          else
            (case getImageData (closePath c) of
               None \<Rightarrow>
                 setActiveMask
                   (m\<lparr>canvasRef := Some (closePath c), isDrawingRef := False\<rparr>) s
             | Some imageData \<Rightarrow>
                 setActiveMask
                   (m\<lparr>canvasRef := Some (closePath c), isDrawingRef := False,
                      isMaskDrawn := hasDrawing imageData\<rparr>) s))"

definition clearMask :: "app_state \<Rightarrow> app_state" where
  "clearMask s =
     (let m = activeMask s in
      case canvasRef m of
        None \<Rightarrow> s
      | Some c \<Rightarrow>
          setActiveMask
            (m\<lparr>canvasRef := Some (clearRect c), isMaskDrawn := False,
               maskHistoryRef := [], canUndoMask := False\<rparr>) s)"

definition undoMaskStroke :: "app_state \<Rightarrow> app_state" where
  "undoMaskStroke s =
     (let m = activeMask s in
      case canvasRef m of
        None \<Rightarrow> s
      | Some c \<Rightarrow>
          if length (maskHistoryRef m) > 0
          then
            let lastState = last (maskHistoryRef m);
                rest = butlast (maskHistoryRef m)
            in setActiveMask
                 (m\<lparr>maskHistoryRef := rest,
                    canvasRef := Some (putImageData lastState c),
                    canUndoMask := (length rest > 0),
                    isMaskDrawn := hasDrawing lastState\<rparr>) s
          else s)"

text \<open>
  One stroke is a pointer-down, any number of pointer-moves and a pointer-up (or
  pointer-leave: both call \<open>stopDrawing\<close>).
\<close>

definition paintStroke :: "rasterizer \<Rightarrow> app_state \<Rightarrow> pointer \<times> pointer list \<Rightarrow> app_state" where
  "paintStroke R s st =
     stopDrawing (foldl (\<lambda>t e. draw R e t) (startDrawing (fst st) s) (snd st))"

section \<open>Mask rasterisation\<close>

text \<open>
  The loops \<open>for (let i = 0; i < data.length; i += 4)\<close> of \<open>handleApplyMagicFill\<close>
  and of \<open>handleApplyFreestyle\<close>, over the flat byte array. Fewer than four
  remaining bytes are left as they are.
\<close>

fun mark_white :: "byte list \<Rightarrow> byte list" where
  "mark_white (r # g # b # a # rest) =
     (if a > 0 then [255, 255, 255, 255] else [r, g, b, a]) @ mark_white rest"
| "mark_white rest = rest"

fun mark_black :: "byte list \<Rightarrow> byte list" where
  "mark_black (r # g # b # a # rest) =
     (if a > 0 then [0, 0, 0, 255] else [r, g, b, a]) @ mark_black rest"
| "mark_black rest = rest"

definition magicFillMask :: "resampler \<Rightarrow> canvas \<Rightarrow> img_element \<Rightarrow> canvas option" where
  "magicFillMask filt sourceCanvas img =
     (let maskCanvas =
            fillRect black (createCanvas (naturalWidth img) (naturalHeight img));
          tempMaskCanvas = createCanvas (cwidth sourceCanvas) (cheight sourceCanvas)
      in case drawImage sourceCanvas tempMaskCanvas of
           None \<Rightarrow> None
         | Some temp \<Rightarrow>
             (case getImageData temp of
                None \<Rightarrow> None
              | Some imageData \<Rightarrow>
                  drawImageScaled filt
                    (putImageData (imageData\<lparr>idata := mark_white (idata imageData)\<rparr>) temp)
                    (cwidth maskCanvas, cheight maskCanvas) maskCanvas))"

definition freestyleMask :: "resampler \<Rightarrow> canvas \<Rightarrow> img_element \<Rightarrow> canvas option" where
  "freestyleMask filt sourceCanvas img =
     (let maskCanvas =
            fillRect white (createCanvas (naturalWidth img) (naturalHeight img));
          tempMaskCanvas = createCanvas (cwidth sourceCanvas) (cheight sourceCanvas)
      in case drawImage sourceCanvas tempMaskCanvas of
           None \<Rightarrow> None
         | Some temp \<Rightarrow>
             (case getImageData temp of
                None \<Rightarrow> None
              | Some imageData \<Rightarrow>
                  drawImageScaled filt
                    (putImageData (imageData\<lparr>idata := mark_black (idata imageData)\<rparr>) temp)
                    (cwidth maskCanvas, cheight maskCanvas) maskCanvas))"

section \<open>Edit handlers and the external service\<close>

text \<open>
  \<open>String.prototype.trim\<close> removes the white space and line terminators of
  ECMAScript from both ends.
\<close>

definition is_space :: "16 word \<Rightarrow> bool" where
  "is_space ch \<longleftrightarrow>
     ch \<in> {0x0009, 0x000A, 0x000B, 0x000C, 0x000D, 0x0020, 0x00A0, 0x1680,
            0x2028, 0x2029, 0x202F, 0x205F, 0x3000, 0xFEFF}
     \<or> (0x2000 \<le> ch \<and> ch \<le> 0x200A)"

definition trim :: "jsstring \<Rightarrow> jsstring" where
  "trim str = rev (dropWhile is_space (rev (dropWhile is_space str)))"

text \<open>
  The generative service is a parameter: a function from the request a handler
  issues to its outcome. \<open>Success n\<close> is a promise that resolves with a data URL
  which \<open>dataURLtoFile\<close> decodes to blob \<open>n\<close>; \<open>Failure f\<close> is a rejected promise,
  or a data URL that \<open>dataURLtoFile\<close> throws on, and \<open>f\<close> is the class in which
  \<open>formatErrorMessage\<close> puts the thrown value. File names and \<open>Date.now()\<close> are
  left out.
\<close>

datatype request =
    GenerateEditedImage jsfile jsstring "coord \<times> coord"
  | GenerateMagicFillImage jsfile jsfile jsstring
  | GenerateAdjustedImage jsfile jsstring "jsfile option"

datatype outcome = Success nat | Failure failure

type_synonym service = "request \<Rightarrow> outcome"

fun formatErrorMessage :: "failure \<Rightarrow> op_context \<Rightarrow> message" where
  "formatErrorMessage Blocked ctx = PolicyBlock ctx"
| "formatErrorMessage NoImageReturned ctx = NoResult ctx"
| "formatErrorMessage OtherError ctx = Failed ctx"
| "formatErrorMessage NotAnError ctx = Unexpected ctx"

text \<open>
  What React does between the two halves of an asynchronous handler. The mask
  canvases are rendered under the conditions
  \<open>activeTab === 'magicfill' && !loadingMessage\<close> and
  \<open>activeTab === 'freestyle' && !loadingMessage\<close>, inside the branch of
  \<open>renderContent\<close> that is reached when there is no error and an image is loaded.
  A canvas whose condition turns false is unmounted and its ref becomes \<open>null\<close>; a
  canvas whose condition turns true is a new element: transparent and of the
  default size of a canvas, 300 by 150.

  The effect \<open>resizeCanvases\<close> gives the mounted canvases the size of the layout
  box \<open>box\<close> of the displayed image, when the image element is there; assigning
  \<open>width\<close> and \<open>height\<close> clears a canvas and its path. The effect has the
  dependencies \<open>[currentImageUrl, activeTab]\<close>, and the URL is made anew whenever
  \<open>currentImage\<close> changes; so \<open>render box prev s\<close>, the commit of state \<open>s\<close> after
  the commit of state \<open>prev\<close>, runs it when the current image or the tab differs
  between the two. It also runs on every \<open>resize\<close> event of the window. A canvas
  that is mounted by a render in which neither changes keeps the default size.
  A handler that sets \<open>loadingMessage\<close> and then awaits the service resumes after
  a render in which both canvases are gone.
\<close>

definition mounted :: "tab \<Rightarrow> app_state \<Rightarrow> bool" where
  "mounted t s \<longleftrightarrow>
     error s = None \<and> currentImage s \<noteq> None \<and> activeTab s = t \<and> loadingMessage s = None"

definition remount :: "bool \<Rightarrow> mask_state \<Rightarrow> mask_state" where
  "remount shown m =
     (if shown
      then (case canvasRef m of
              None \<Rightarrow> m\<lparr>canvasRef := Some (createCanvas 300 150)\<rparr>
            | Some c \<Rightarrow> m)
      else m\<lparr>canvasRef := None\<rparr>)"

definition resizeCanvas :: "nat \<times> nat \<Rightarrow> mask_state \<Rightarrow> mask_state" where
  "resizeCanvas box m =
     (case canvasRef m of
        None \<Rightarrow> m
      | Some c \<Rightarrow>
          m\<lparr>canvasRef :=
              Some (c\<lparr>cwidth := fst box, cheight := snd box,
                      bitmap := replicate (fst box * snd box) transparent, subpath := []\<rparr>)\<rparr>)"

definition resizeCanvases :: "nat \<times> nat \<Rightarrow> app_state \<Rightarrow> app_state" where
  "resizeCanvases box s =
     (case imgRef s of
        None \<Rightarrow> s
      | Some img \<Rightarrow>
          s\<lparr>magicFill := resizeCanvas box (magicFill s),
            freestyle := resizeCanvas box (freestyle s)\<rparr>)"

definition render :: "nat \<times> nat \<Rightarrow> app_state \<Rightarrow> app_state \<Rightarrow> app_state" where
  "render box prev s =
     (let committed =
            s\<lparr>magicFill := remount (mounted Magicfill s) (magicFill s),
              freestyle := remount (mounted Freestyle s) (freestyle s)\<rparr>
      in if currentImage s = currentImage prev \<and> activeTab s = activeTab prev
         then committed
         else resizeCanvases box committed)"

text \<open>
  Each asynchronous handler is split at its \<open>await\<close>: \<open>..._start\<close> runs up to the
  call and returns the request, if one is issued; \<open>..._resume\<close> runs from the
  outcome to the end of the \<open>finally\<close> block, in the state \<open>s\<close> that is current
  when the promise settles. Undo, redo and the other controls stay enabled while
  a request is outstanding, so \<open>s\<close> need not be the state of the submission. The
  second half still runs the closures of the render in which the handler was
  invoked, the state \<open>cl\<close>: \<open>addImageToHistory\<close> there reads \<open>history\<close> and
  \<open>historyIndex\<close> of \<open>cl\<close>, and \<open>clearMask\<close> reads \<open>activeTab\<close> of \<open>cl\<close>; refs are
  read and state is set in \<open>s\<close>. \<open>addImageToHistory_stale cl\<close> and
  \<open>clearMask_stale cl\<close> are these closures; with \<open>cl = s\<close> they are
  \<open>addImageToHistory\<close> and \<open>clearMask\<close>. The handler itself, from submission to
  settlement with nothing in between, returns the final state and the list of
  requests it issued.
\<close>

definition addImageToHistory_stale :: "app_state \<Rightarrow> jsfile \<Rightarrow> app_state \<Rightarrow> app_state" where
  "addImageToHistory_stale cl newImageFile s =
     (let newHistory = slice0 (history cl) (historyIndex cl + 1) @ [newImageFile]
      in s\<lparr>history := newHistory,
           historyIndex := int (length newHistory) - 1,
           crop := None,
           completedCrop := None,
           secondaryImage := None,
           combinePlacement := Blend\<rparr>)"

definition clearMask_stale :: "app_state \<Rightarrow> app_state \<Rightarrow> app_state" where
  "clearMask_stale cl s =
     (let m = (if activeTab cl = Magicfill then magicFill s else freestyle s) in
      case canvasRef m of
        None \<Rightarrow> s
      | Some c \<Rightarrow>
          (let m' = m\<lparr>canvasRef := Some (clearRect c), isMaskDrawn := False,
                      maskHistoryRef := [], canUndoMask := False\<rparr>
           in if activeTab cl = Magicfill then s\<lparr>magicFill := m'\<rparr> else s\<lparr>freestyle := m'\<rparr>))"

definition handleGenerate_start :: "app_state \<Rightarrow> app_state \<times> request option" where
  "handleGenerate_start s =
     (case currentImage s of
        None \<Rightarrow> (s\<lparr>error := Some NoImageLoaded\<rparr>, None)
      | Some cur \<Rightarrow>
          if trim (prompt s) = [] then (s\<lparr>error := Some NoPrompt\<rparr>, None)
          else
            (case editHotspot s of
               None \<Rightarrow> (s\<lparr>error := Some NoHotspot\<rparr>, None)
             | Some hotspot \<Rightarrow>
                 (s\<lparr>loadingMessage := Some Retouching, error := None\<rparr>,
                  Some (GenerateEditedImage cur (prompt s) hotspot))))"

definition handleGenerate_resume :: "app_state \<Rightarrow> outcome \<Rightarrow> app_state \<Rightarrow> app_state" where
  "handleGenerate_resume cl res s =
     (case res of
        Success n \<Rightarrow>
          (addImageToHistory_stale cl (ImageFile n) s)
            \<lparr>editHotspot := None, displayHotspot := None, loadingMessage := None\<rparr>
      | Failure f \<Rightarrow>
          s\<lparr>error := Some (formatErrorMessage f CtxRetouch), loadingMessage := None\<rparr>)"

definition handleGenerate :: "nat \<times> nat \<Rightarrow> service \<Rightarrow> app_state \<Rightarrow> app_state \<times> request list" where
  "handleGenerate box svc s =
     (case handleGenerate_start s of
        (s1, None) \<Rightarrow> (s1, [])
      | (s1, Some rq) \<Rightarrow> (handleGenerate_resume s (svc rq) (render box s s1), [rq]))"

definition handleApplyMagicFill_start ::
    "resampler \<Rightarrow> app_state \<Rightarrow> app_state \<times> request option" where
  "handleApplyMagicFill_start filt s =
     (case (currentImage s, canvasRef (magicFill s)) of
        (Some cur, Some sourceCanvas) \<Rightarrow>
          if \<not> isMaskDrawn (magicFill s) then (s\<lparr>error := Some NoMaskPainted\<rparr>, None)
          else
            (case imgRef s of
               None \<Rightarrow> (s, None)
             | Some img \<Rightarrow>
                 (case magicFillMask filt sourceCanvas img of
                    None \<Rightarrow> (s, None)
                  | Some maskCanvas \<Rightarrow>
                      (case maskFile maskCanvas of
                         None \<Rightarrow>
                           (s\<lparr>error := Some (formatErrorMessage OtherError CtxMagicFill),
                              loadingMessage := None\<rparr>, None)
                       | Some maskPng \<Rightarrow>
                           (s\<lparr>loadingMessage := Some Filling, error := None\<rparr>,
                            Some (GenerateMagicFillImage cur maskPng (magicFillPrompt s))))))
      | _ \<Rightarrow> (s\<lparr>error := Some NoMaskPainted\<rparr>, None))"

definition handleApplyMagicFill_resume :: "app_state \<Rightarrow> outcome \<Rightarrow> app_state \<Rightarrow> app_state" where
  "handleApplyMagicFill_resume cl res s =
     (case res of
        Success n \<Rightarrow>
          (clearMask_stale cl (addImageToHistory_stale cl (ImageFile n) s))
            \<lparr>magicFillPrompt := [], loadingMessage := None\<rparr>
      | Failure f \<Rightarrow>
          s\<lparr>error := Some (formatErrorMessage f CtxMagicFill), loadingMessage := None\<rparr>)"

definition handleApplyMagicFill ::
    "resampler \<Rightarrow> nat \<times> nat \<Rightarrow> service \<Rightarrow> app_state \<Rightarrow> app_state \<times> request list" where
  "handleApplyMagicFill filt box svc s =
     (case handleApplyMagicFill_start filt s of
        (s1, None) \<Rightarrow> (s1, [])
      | (s1, Some rq) \<Rightarrow> (handleApplyMagicFill_resume s (svc rq) (render box s s1), [rq]))"

definition handleApplyFreestyle_start ::
    "resampler \<Rightarrow> jsstring \<Rightarrow> app_state \<Rightarrow> app_state \<times> request option" where
  "handleApplyFreestyle_start filt freestylePrompt s =
     (case currentImage s of
        None \<Rightarrow> (s\<lparr>error := Some NoImageLoaded\<rparr>, None)
      | Some cur \<Rightarrow>
          (case (isMaskDrawn (freestyle s), canvasRef (freestyle s), imgRef s) of
             (True, Some sourceCanvas, Some img) \<Rightarrow>
               (case Option.bind (freestyleMask filt sourceCanvas img) maskFile of
                  None \<Rightarrow>
                    (s\<lparr>error := Some (formatErrorMessage OtherError CtxFreestyle),
                       loadingMessage := None\<rparr>, None)
                | Some maskPng \<Rightarrow>
                    (s\<lparr>loadingMessage := Some Imagining, error := None\<rparr>,
                     Some (GenerateMagicFillImage cur maskPng freestylePrompt)))
           | _ \<Rightarrow>
               (s\<lparr>loadingMessage := Some Imagining, error := None\<rparr>,
                Some (GenerateAdjustedImage cur freestylePrompt None))))"

definition handleApplyFreestyle_resume :: "app_state \<Rightarrow> outcome \<Rightarrow> app_state \<Rightarrow> app_state" where
  "handleApplyFreestyle_resume cl res s =
     (case res of
        Success n \<Rightarrow>
          (clearMask_stale cl (addImageToHistory_stale cl (ImageFile n) s))\<lparr>loadingMessage := None\<rparr>
      | Failure f \<Rightarrow>
          s\<lparr>error := Some (formatErrorMessage f CtxFreestyle), loadingMessage := None\<rparr>)"

definition handleApplyFreestyle ::
    "resampler \<Rightarrow> nat \<times> nat \<Rightarrow> service \<Rightarrow> jsstring \<Rightarrow> app_state \<Rightarrow> app_state \<times> request list" where
  "handleApplyFreestyle filt box svc freestylePrompt s =
     (case handleApplyFreestyle_start filt freestylePrompt s of
        (s1, None) \<Rightarrow> (s1, [])
      | (s1, Some rq) \<Rightarrow> (handleApplyFreestyle_resume s (svc rq) (render box s s1), [rq]))"

text \<open>
  \<open>handleApply\<close> of \<open>FreestylePanel\<close>, the only caller of \<open>handleApplyFreestyle\<close>:
  it submits the panel's own prompt when that is not blank.
\<close>

definition handleApply ::
    "resampler \<Rightarrow> nat \<times> nat \<Rightarrow> service \<Rightarrow> jsstring \<Rightarrow> app_state \<Rightarrow> app_state \<times> request list" where
  "handleApply filt box svc panelPrompt s =
     (if trim panelPrompt \<noteq> [] then handleApplyFreestyle filt box svc panelPrompt s
      else (s, []))"

section \<open>Vocabulary of the properties\<close>

text \<open>
  A canvas is well formed when its bitmap has one pixel per position and it has
  at least one pixel (\<open>getImageData\<close> and \<open>drawImage\<close> throw on a canvas without
  pixels).
\<close>

definition wf_canvas :: "canvas \<Rightarrow> bool" where
  "wf_canvas c \<longleftrightarrow> length (bitmap c) = cwidth c * cheight c \<and> 0 < cwidth c \<and> 0 < cheight c"

text \<open>
  The share of the painted pixels among the taps of a pixel of the native mask:
  the sum of the weights of the taps whose source pixel has alpha above zero.
  \<open>level\<close> is that share as a byte, and \<open>grey v\<close> the opaque grey of value \<open>v\<close>;
  \<open>grey 0\<close> is black and \<open>grey 255\<close> is white.
\<close>

definition painted :: "canvas \<Rightarrow> nat \<times> nat \<Rightarrow> bool" where
  "painted c sxy \<longleftrightarrow> 0 < alpha (tap_pixel c sxy)"

definition coverage :: "resampler \<Rightarrow> canvas \<Rightarrow> nat \<times> nat \<Rightarrow> nat \<times> nat \<Rightarrow> rat" where
  "coverage filt c box xy =
     sum_list (map (\<lambda>t. if painted c (fst t) then snd t else 0)
                 (filt (cwidth c, cheight c) box xy))"

definition level :: "resampler \<Rightarrow> canvas \<Rightarrow> nat \<times> nat \<Rightarrow> nat \<times> nat \<Rightarrow> byte" where
  "level filt c box xy = to_byte (255 * coverage filt c box xy)"

definition grey :: "byte \<Rightarrow> pixel" where
  "grey v = Pixel v v v 255"

definition complement :: "pixel \<Rightarrow> pixel" where
  "complement p = Pixel (255 - red p) (255 - green p) (255 - blue p) (alpha p)"


text \<open>
  The surface of the active mask is what is visible of its canvas: the size and
  the pixels. A state is paintable when \<open>startDrawing\<close> will start a stroke in it.
\<close>

definition surface :: "app_state \<Rightarrow> (nat \<times> nat \<times> pixel list) option" where
  "surface s = map_option (\<lambda>c. (cwidth c, cheight c, bitmap c)) (canvasRef (activeMask s))"

definition paintable :: "app_state \<Rightarrow> bool" where
  "paintable s \<longleftrightarrow>
     (activeTab s = Magicfill \<or> activeTab s = Freestyle) \<and> loadingMessage s = None \<and>
     (case canvasRef (activeMask s) of None \<Rightarrow> False | Some c \<Rightarrow> wf_canvas c)"

definition same_shape :: "canvas \<Rightarrow> canvas \<Rightarrow> bool" where
  "same_shape a b \<longleftrightarrow>
     cwidth a = cwidth b \<and> cheight a = cheight b \<and> length (bitmap a) = length (bitmap b)"

text \<open>During a stroke: the tab, the stack and the shape of the canvas stay.\<close>

definition mid_stroke :: "tab \<Rightarrow> imagedata list \<Rightarrow> canvas \<Rightarrow> app_state \<Rightarrow> bool" where
  "mid_stroke t H c s \<longleftrightarrow>
     activeTab s = t \<and> loadingMessage s = None \<and> maskHistoryRef (activeMask s) = H \<and>
     (case canvasRef (activeMask s) of None \<Rightarrow> False | Some c' \<Rightarrow> same_shape c' c)"

text \<open>What \<open>undoMaskStroke\<close> does to the surface depends on the surface, the stack and the tab only.\<close>

definition alike :: "app_state \<Rightarrow> app_state \<Rightarrow> bool" where
  "alike a b \<longleftrightarrow>
     activeTab a = activeTab b \<and> surface a = surface b \<and>
     maskHistoryRef (activeMask a) = maskHistoryRef (activeMask b)"

section \<open>Example inputs\<close>

definition frame_example :: app_state where
  "frame_example =
     initial_state\<lparr>history := [ImageFile 10, ImageFile 11, ImageFile 12], historyIndex := 1,
       editHotspot := Some (Finite 20, Finite 30), displayHotspot := Some (Num 10, Num 15),
       secondaryImage := Some (ImageFile 7), combinePlacement := Overlay\<rparr>"



definition blank_prompt_example :: app_state where
  "blank_prompt_example =
     initial_state\<lparr>history := [ImageFile 10], historyIndex := 0, prompt := [0x20, 0x09],
       editHotspot := Some (Finite 20, Finite 30), displayHotspot := Some (Num 10, Num 15)\<rparr>"

definition painted_surface :: canvas where
  "painted_surface =
     \<lparr>cwidth = 2, cheight = 1, bitmap = [Pixel 74 144 226 153, Pixel 0 0 0 0],
      subpath = [], cleft = 0, ctop = 0\<rparr>"

definition blank_surface :: canvas where
  "blank_surface =
     \<lparr>cwidth = 2, cheight = 1, bitmap = [Pixel 0 0 0 0, Pixel 0 0 0 0],
      subpath = [], cleft = 0, ctop = 0\<rparr>"

definition native_4x2 :: img_element where
  "native_4x2 =
     \<lparr>naturalWidth = 4, naturalHeight = 2, clientWidth = 2, clientHeight = 1,
      rect_left = 0, rect_top = 0\<rparr>"

definition native_2x1 :: img_element where
  "native_2x1 =
     \<lparr>naturalWidth = 2, naturalHeight = 1, clientWidth = 2, clientHeight = 1,
      rect_left = 0, rect_top = 0\<rparr>"

definition dot_raster :: rasterizer where
  "dot_raster style pts xy old =
     (if (of_nat (fst xy), of_nat (snd xy)) \<in> set pts
      then (if globalCompositeOperation style = DestinationOut then Pixel 0 0 0 0
            else Pixel 74 144 226 153)
      else old)"

definition painting_example :: app_state where
  "painting_example =
     initial_state\<lparr>history := [ImageFile 10], historyIndex := 0, activeTab := Magicfill,
       imgRef := Some native_4x2,
       magicFill := initial_mask\<lparr>canvasRef := Some blank_surface\<rparr>\<rparr>"

definition stroke_a :: "pointer \<times> pointer list" where
  "stroke_a = (\<lparr>clientX = 0, clientY = 0\<rparr>, [\<lparr>clientX = 0, clientY = 0\<rparr>])"

definition stroke_b :: "pointer \<times> pointer list" where
  "stroke_b = (\<lparr>clientX = 1, clientY = 0\<rparr>, [\<lparr>clientX = 1, clientY = 0\<rparr>])"

definition drawing_painted :: app_state where
  "drawing_painted =
     initial_state\<lparr>history := [ImageFile 10], historyIndex := 0, activeTab := Magicfill,
       magicFill := initial_mask\<lparr>canvasRef := Some painted_surface, isDrawingRef := True\<rparr>\<rparr>"

definition drawing_blank :: app_state where
  "drawing_blank =
     initial_state\<lparr>history := [ImageFile 10], historyIndex := 0, activeTab := Freestyle,
       freestyle := initial_mask\<lparr>canvasRef := Some blank_surface, isDrawingRef := True,
                     isMaskDrawn := True\<rparr>\<rparr>"

definition sepia :: jsstring where
  "sepia = [0x6D, 0x61, 0x6B, 0x65, 0x20, 0x69, 0x74, 0x20, 0x73, 0x65, 0x70, 0x69, 0x61]"

definition always_succeeds :: service where
  "always_succeeds rq = Success 99"

definition protected_example :: app_state where
  "protected_example =
     initial_state\<lparr>history := [ImageFile 10], historyIndex := 0, activeTab := Freestyle,
       imgRef := Some native_4x2,
       freestyle := initial_mask\<lparr>canvasRef := Some painted_surface, isMaskDrawn := True,
         maskHistoryRef := [\<lparr>iwidth = 2, iheight = 1, idata = [0, 0, 0, 0, 0, 0, 0, 0]\<rparr>],
         canUndoMask := True\<rparr>\<rparr>"

section \<open>Properties of the snapshot history\<close>

lemma slice0_take: "- 1 \<le> i \<Longrightarrow> slice0 xs (i + 1) = take (nat (i + 1)) xs"
  by (auto simp: slice0_def Let_def min_def)

text \<open>
  C1. In every history state (the cursor is at least \<open>-1\<close>), \<open>addImageToHistory\<close>
  keeps the entries up to and including the cursor, drops the entries after it,
  appends the new snapshot and moves the cursor to the new last index. The
  witness is the example of the specification: from \<open>[A, B, C]\<close> with the cursor
  at index 1, appending \<open>D\<close> gives \<open>[A, B, D]\<close> with the cursor at 2.
\<close>

theorem append_truncates:
  assumes "- 1 \<le> historyIndex s"
  shows "history (addImageToHistory f s) = take (nat (historyIndex s + 1)) (history s) @ [f]
       \<and> historyIndex (addImageToHistory f s)
           = int (length (history (addImageToHistory f s))) - 1"
  using assms by (simp add: addImageToHistory_def Let_def slice0_take)

theorem append_truncates_witness:
  "- 1 \<le> historyIndex
      (initial_state\<lparr>history := [ImageFile 10, ImageFile 11, ImageFile 12], historyIndex := 1\<rparr>)
   \<and> history (addImageToHistory (ImageFile 13)
        (initial_state\<lparr>history := [ImageFile 10, ImageFile 11, ImageFile 12],
           historyIndex := 1\<rparr>))
       = [ImageFile 10, ImageFile 11, ImageFile 13]
   \<and> historyIndex (addImageToHistory (ImageFile 13)
        (initial_state\<lparr>history := [ImageFile 10, ImageFile 11, ImageFile 12],
           historyIndex := 1\<rparr>)) = 2"
  using append_truncates
    [of "initial_state\<lparr>history := [ImageFile 10, ImageFile 11, ImageFile 12],
           historyIndex := 1\<rparr>" "ImageFile 13"]
  by simp

lemma cursor_ok_apply: "cursor_ok s \<Longrightarrow> cursor_ok (apply_op s x)"
  by (cases x)
     (auto simp: cursor_ok_def addImageToHistory_def handleUndo_def handleRedo_def
        handleReset_def canUndo_def canRedo_def slice0_def Let_def min_def)

lemma cursor_ok_run: "cursor_ok s \<Longrightarrow> cursor_ok (run_ops s ops)"
  unfolding run_ops_def by (induction ops arbitrary: s) (simp_all add: cursor_ok_apply)

lemma cursor_ok_initial: "cursor_ok initial_state"
  by (simp add: cursor_ok_def initial_state_def)

lemma first_apply:
  "cursor_ok s \<Longrightarrow> history s \<noteq> [] \<Longrightarrow>
     history (apply_op s x) \<noteq> [] \<and> hd (history (apply_op s x)) = hd (history s)"
  by (cases x)
     (auto simp: cursor_ok_def addImageToHistory_def handleUndo_def handleRedo_def
        handleReset_def canUndo_def canRedo_def slice0_def Let_def min_def hd_append)

lemma first_run:
  "cursor_ok s \<Longrightarrow> history s \<noteq> [] \<Longrightarrow>
     history (run_ops s ops) \<noteq> [] \<and> hd (history (run_ops s ops)) = hd (history s)"
proof (induction ops arbitrary: s)
  case Nil
  then show ?case by (simp add: run_ops_def)
next
  case (Cons x ops)
  from first_apply [OF Cons.prems] cursor_ok_apply [OF Cons.prems(1)]
  have "history (run_ops (apply_op s x) ops) \<noteq> []
      \<and> hd (history (run_ops (apply_op s x) ops)) = hd (history (apply_op s x))"
    by (intro Cons.IH) auto
  with first_apply [OF Cons.prems] show ?case by (simp add: run_ops_def)
qed

lemma run_ops_append: "run_ops s (xs @ ys) = run_ops (run_ops s xs) ys"
  by (simp add: run_ops_def)

lemma originalImage_hd: "history s \<noteq> [] \<Longrightarrow> originalImage s = Some (hd (history s))"
  by (cases "history s") (simp_all add: originalImage_def at_index_def)

text \<open>
  C2. After every sequence \<open>ops\<close> of appends, undos, redos (and resets) from the
  empty history, the cursor lies in \<open>[-1, length - 1]\<close> and is \<open>-1\<close> exactly when
  the history is empty (\<open>cursor_ok\<close>); and once the history is non-empty, whatever
  operations \<open>later\<close> follow, it stays non-empty and \<open>history[0]\<close> is the same
  snapshot.
\<close>

theorem history_cursor_invariant:
  "cursor_ok (run_ops initial_state ops) \<and>
   (history (run_ops initial_state ops) \<noteq> [] \<longrightarrow>
      history (run_ops initial_state (ops @ later)) \<noteq> [] \<and>
      originalImage (run_ops initial_state (ops @ later))
        = originalImage (run_ops initial_state ops))"
proof -
  have ok: "cursor_ok (run_ops initial_state ops)"
    by (rule cursor_ok_run [OF cursor_ok_initial])
  show ?thesis
  proof (intro conjI impI)
    show "cursor_ok (run_ops initial_state ops)" by (rule ok)
  next
    assume ne: "history (run_ops initial_state ops) \<noteq> []"
    from first_run [OF ok ne, of later]
    show "history (run_ops initial_state (ops @ later)) \<noteq> []"
      by (simp add: run_ops_append)
  next
    assume ne: "history (run_ops initial_state ops) \<noteq> []"
    from first_run [OF ok ne, of later]
    show "originalImage (run_ops initial_state (ops @ later))
            = originalImage (run_ops initial_state ops)"
      by (simp add: run_ops_append originalImage_hd ne)
  qed
qed

theorem history_cursor_invariant_witness:
  "history (run_ops initial_state [Append (ImageFile 10), Append (ImageFile 11), Undo]) \<noteq> []
   \<and> cursor_ok (run_ops initial_state [Append (ImageFile 10), Append (ImageFile 11), Undo])
   \<and> history (run_ops initial_state
        ([Append (ImageFile 10), Append (ImageFile 11), Undo]
           @ [Append (ImageFile 12), Redo])) \<noteq> []
   \<and> originalImage (run_ops initial_state
        ([Append (ImageFile 10), Append (ImageFile 11), Undo]
           @ [Append (ImageFile 12), Redo]))
       = Some (ImageFile 10)"
  using history_cursor_invariant
    [of "[Append (ImageFile 10), Append (ImageFile 11), Undo]"
        "[Append (ImageFile 12), Redo]"]
  by (simp add: run_ops_def initial_state_def addImageToHistory_def handleUndo_def
        handleRedo_def canUndo_def canRedo_def slice0_def Let_def originalImage_def
        at_index_def cursor_ok_def)

text \<open>
  C10. When \<open>handleUndo\<close> fires (\<open>canUndo\<close>: the cursor is positive) it moves the
  cursor back by one, and when \<open>handleRedo\<close> fires (\<open>canRedo\<close>: the cursor is below
  the last index) it moves the cursor forward by one; each also clears the
  selected hotspot in native and in display coordinates, clears the secondary
  image and resets the combine placement to \<open>blend\<close>, and leaves the list of
  snapshots as it is.
\<close>

theorem undo_redo_frame:
  "(canUndo s \<longrightarrow>
      historyIndex (handleUndo s) = historyIndex s - 1 \<and>
      editHotspot (handleUndo s) = None \<and> displayHotspot (handleUndo s) = None \<and>
      secondaryImage (handleUndo s) = None \<and> combinePlacement (handleUndo s) = Blend \<and>
      history (handleUndo s) = history s) \<and>
   (canRedo s \<longrightarrow>
      historyIndex (handleRedo s) = historyIndex s + 1 \<and>
      editHotspot (handleRedo s) = None \<and> displayHotspot (handleRedo s) = None \<and>
      secondaryImage (handleRedo s) = None \<and> combinePlacement (handleRedo s) = Blend \<and>
      history (handleRedo s) = history s)"
  by (simp add: handleUndo_def handleRedo_def)

theorem undo_redo_frame_witness:
  "canUndo frame_example \<and> canRedo frame_example \<and>
   historyIndex (handleUndo frame_example) = 0 \<and>
   editHotspot (handleUndo frame_example) = None \<and>
   displayHotspot (handleUndo frame_example) = None \<and>
   secondaryImage (handleUndo frame_example) = None \<and>
   combinePlacement (handleUndo frame_example) = Blend \<and>
   history (handleUndo frame_example) = [ImageFile 10, ImageFile 11, ImageFile 12] \<and>
   historyIndex (handleRedo frame_example) = 2 \<and>
   editHotspot (handleRedo frame_example) = None \<and>
   displayHotspot (handleRedo frame_example) = None \<and>
   secondaryImage (handleRedo frame_example) = None \<and>
   combinePlacement (handleRedo frame_example) = Blend \<and>
   history (handleRedo frame_example) = [ImageFile 10, ImageFile 11, ImageFile 12]"
proof -
  have u: "canUndo frame_example" by (simp add: canUndo_def frame_example_def)
  have r: "canRedo frame_example" by (simp add: canRedo_def frame_example_def)
  from undo_redo_frame [of frame_example] u r show ?thesis
    by (simp add: frame_example_def)
qed

section \<open>Properties of point selection and of validation\<close>




































text \<open>
  C7. When the instruction text is blank (empty after \<open>trim\<close>) or no hotspot is
  selected, \<open>handleGenerate\<close> issues no request to the service, changes nothing
  in the state but the error message, and so leaves the list of snapshots and the
  cursor as they are.
\<close>

theorem generate_validation:
  assumes "trim (prompt s) = [] \<or> editHotspot s = None"
  shows "snd (handleGenerate box svc s) = []
       \<and> (\<exists>msg. fst (handleGenerate box svc s) = s\<lparr>error := Some msg\<rparr>)
       \<and> history (fst (handleGenerate box svc s)) = history s
       \<and> historyIndex (fst (handleGenerate box svc s)) = historyIndex s"
  using assms
  by (auto simp: handleGenerate_def handleGenerate_start_def split: option.splits)

theorem generate_validation_witness:
  "trim (prompt blank_prompt_example) = []
   \<and> currentImage blank_prompt_example = Some (ImageFile 10)
   \<and> snd (handleGenerate (150, 100) always_succeeds blank_prompt_example) = []
   \<and> history (fst (handleGenerate (150, 100) always_succeeds blank_prompt_example))
       = [ImageFile 10]
   \<and> historyIndex (fst (handleGenerate (150, 100) always_succeeds blank_prompt_example)) = 0
   \<and> error (fst (handleGenerate (150, 100) always_succeeds blank_prompt_example))
       = Some NoPrompt"
proof -
  have t: "trim (prompt blank_prompt_example) = []"
    by (simp add: blank_prompt_example_def trim_def is_space_def)
  have c: "currentImage blank_prompt_example = Some (ImageFile 10)"
    by (simp add: blank_prompt_example_def currentImage_def at_index_def)
  from generate_validation [of blank_prompt_example "(150, 100)" always_succeeds] t
  have "snd (handleGenerate (150, 100) always_succeeds blank_prompt_example) = []"
    and "history (fst (handleGenerate (150, 100) always_succeeds blank_prompt_example))
           = [ImageFile 10]"
    and "historyIndex (fst (handleGenerate (150, 100) always_succeeds blank_prompt_example)) = 0"
    by (simp_all add: blank_prompt_example_def)
  moreover have "error (fst (handleGenerate (150, 100) always_succeeds blank_prompt_example))
                   = Some NoPrompt"
    by (simp add: handleGenerate_def handleGenerate_start_def t c)
  ultimately show ?thesis using t c by blast
qed

section \<open>Properties of the canvas operations and of mask rasterisation\<close>

lemma createCanvas_sel:
  "cwidth (createCanvas w h) = w" "cheight (createCanvas w h) = h"
  "bitmap (createCanvas w h) = replicate (w * h) transparent"
  by (simp_all add: createCanvas_def)

lemma alpha_black: "alpha black = 255" and alpha_white: "alpha white = 255"
  by (simp_all add: black_def white_def)

lemma pixels_of_bytes: "pixels_of (concat (map bytes_of ps)) = ps"
  by (induction ps) (simp_all add: bytes_of_def)

lemma mark_white_bytes:
  "mark_white (concat (map bytes_of ps))
     = concat (map bytes_of (map (\<lambda>p. if alpha p > 0 then white else p) ps))"
  by (induction ps) (simp_all add: bytes_of_def white_def)

lemma mark_black_bytes:
  "mark_black (concat (map bytes_of ps))
     = concat (map bytes_of (map (\<lambda>p. if alpha p > 0 then black else p) ps))"
  by (induction ps) (simp_all add: bytes_of_def black_def)

lemma source_over_opaque: "alpha s = 255 \<Longrightarrow> source_over s d = s"
  by (cases s) (simp add: source_over_def blend_def Let_def)

lemma source_over_clear: "alpha s = 0 \<Longrightarrow> alpha d = 255 \<Longrightarrow> source_over s d = d"
  by (cases d) (simp add: source_over_def blend_def Let_def)

lemma alpha_source_over_transparent: "alpha (source_over p transparent) = alpha p"
  by (simp add: source_over_def transparent_def Let_def)

lemma grid_div: "i < w * h \<Longrightarrow> i div w < (h::nat)"
  by (simp add: less_mult_imp_div_less mult.commute)

lemma grid_mod: "i < w * h \<Longrightarrow> i mod w < (w::nat)"
  by (cases "w = 0") simp_all

lemma grid_index: "x < w \<Longrightarrow> y < h \<Longrightarrow> y * w + x < w * (h::nat)"
proof -
  assume "x < w" "y < h"
  then have "y * w + x < y * w + w" by simp
  also have "\<dots> = (Suc y) * w" by simp
  also have "\<dots> \<le> h * w" using \<open>y < h\<close> by (intro mult_le_mono1) simp
  finally show ?thesis by (simp add: mult.commute)
qed

lemma drawImage_onto_blank:
  assumes "wf_canvas c"
  shows "drawImage c (createCanvas (cwidth c) (cheight c))
           = Some ((createCanvas (cwidth c) (cheight c))
                     \<lparr>bitmap := map (\<lambda>p. source_over p transparent) (bitmap c)\<rparr>)"
proof -
  have len: "length (bitmap c) = cwidth c * cheight c" and w: "0 < cwidth c" and h: "0 < cheight c"
    using assms by (simp_all add: wf_canvas_def)
  have "map (\<lambda>i. let x = i mod cwidth c; y = i div cwidth c
                  in if x < cwidth c \<and> y < cheight c
                     then source_over (bitmap c ! (y * cwidth c + x))
                            (replicate (cwidth c * cheight c) transparent ! i)
                     else replicate (cwidth c * cheight c) transparent ! i)
          [0..<cwidth c * cheight c]
        = map (\<lambda>p. source_over p transparent) (bitmap c)"
    by (rule nth_equalityI) (simp_all add: len grid_div grid_mod Let_def)
  then show ?thesis using w h by (simp add: drawImage_def createCanvas_def Let_def cong: if_cong)
qed

lemma putImageData_same:
  assumes "length (bitmap t) = cwidth t * cheight t" and "length qs = cwidth t * cheight t"
  shows "putImageData \<lparr>iwidth = cwidth t, iheight = cheight t,
                         idata = concat (map bytes_of qs)\<rparr> t = t\<lparr>bitmap := qs\<rparr>"
proof -
  have "map (\<lambda>i. let x = i mod cwidth t; y = i div cwidth t
                 in if x < cwidth t \<and> y < cheight t
                    then qs ! (y * cwidth t + x)
                    else bitmap t ! i)
          [0..<cwidth t * cheight t] = qs"
    by (rule nth_equalityI) (simp_all add: assms grid_div grid_mod Let_def)
  then show ?thesis
    by (simp add: putImageData_def pixels_of_bytes assms Let_def cong: if_cong)
qed

lemma fillRect_blank:
  "alpha colour = 255 \<Longrightarrow>
     fillRect colour (createCanvas w h) = (createCanvas w h)\<lparr>bitmap := replicate (w * h) colour\<rparr>"
  by (simp add: fillRect_def createCanvas_def source_over_opaque)

lemma drawImageScaled_nth:
  assumes "0 < cwidth src" and "0 < cheight src"
  shows "drawImageScaled filt src (w, h) ((createCanvas w h)\<lparr>bitmap := replicate (w * h) bg\<rparr>)
       = Some ((createCanvas w h)\<lparr>bitmap :=
           map (\<lambda>i. source_over (resample filt src (w, h) (i mod w, i div w)) bg) [0..<w * h]\<rparr>)"
proof -
  have "map (\<lambda>i. let xy = (i mod w, i div w)
                 in if fst xy < w \<and> snd xy < h
                    then source_over (resample filt src (w, h) xy) (replicate (w * h) bg ! i)
                    else replicate (w * h) bg ! i) [0..<w * h]
      = map (\<lambda>i. source_over (resample filt src (w, h) (i mod w, i div w)) bg) [0..<w * h]"
    by (rule map_cong) (simp_all add: grid_div grid_mod Let_def)
  then show ?thesis using assms
    by (simp add: drawImageScaled_def createCanvas_def Let_def cong: if_cong)
qed

text \<open>The scratch canvas after the loop, seen through a tap.\<close>

lemma source_over_transparent_id: "source_over transparent transparent = transparent"
  by (simp add: source_over_def blend_def transparent_def Let_def)

lemma alpha_transparent: "alpha transparent = 0"
  by (simp add: transparent_def)

lemma tap_pixel_map:
  assumes "cwidth a = cwidth b" and "cheight a = cheight b"
    and "bitmap a = map g (bitmap b)" and "length (bitmap b) = cwidth b * cheight b"
    and "g transparent = transparent"
  shows "tap_pixel a sxy = g (tap_pixel b sxy)"
  using assms by (simp add: tap_pixel_def grid_index)

lemma to_byte_of_nat: "n < 256 \<Longrightarrow> to_byte (of_nat n) = of_nat n"
  by (simp add: to_byte_def)

lemma to_byte_unat: "to_byte (of_nat (unat m)) = m"
proof -
  have "unat m < 256" using unsigned_less [of m] by simp
  then have "to_byte (of_nat (unat m)) = of_nat (unat m)" by (rule to_byte_of_nat)
  then show ?thesis by simp
qed

lemma to_byte_nonpos: "q \<le> 0 \<Longrightarrow> to_byte q = 0"
proof -
  assume "q \<le> 0"
  then have "round q \<le> round (0::rat)" by (rule round_mono)
  then show ?thesis by (simp add: to_byte_def)
qed

lemma to_byte_255: "to_byte 255 = 255"
  by (simp add: to_byte_def)

lemma weighted_scale:
  assumes "\<And>sxy. f (tap_pixel T sxy) = k * (if painted c sxy then 1 else 0)"
  shows "weighted T taps f = k * sum_list (map (\<lambda>t. if painted c (fst t) then snd t else 0) taps)"
  by (induction taps) (simp_all add: weighted_def assms algebra_simps)

text \<open>
  Resampling a scratch canvas on which the painted pixels have the opaque colour
  \<open>m\<close> and all others have alpha zero: the colour is \<open>m\<close> and the alpha is the
  level of the painted share.
\<close>

lemma resample_marked:
  assumes "cwidth T = cwidth c" and "cheight T = cheight c"
    and "\<And>sxy. painted c sxy \<Longrightarrow> tap_pixel T sxy = Pixel m m m 255"
    and "\<And>sxy. \<not> painted c sxy \<Longrightarrow> alpha (tap_pixel T sxy) = 0"
  shows "resample filt T box xy
       = (if 255 * coverage filt c box xy \<le> 0 then transparent
          else Pixel m m m (level filt c box xy))"
proof -
  let ?taps = "filt (cwidth c, cheight c) box xy"
  let ?A = "255 * coverage filt c box xy"
  have a: "weighted T ?taps (\<lambda>p. of_nat (unat (alpha p))) = ?A"
    unfolding coverage_def by (rule weighted_scale) (simp add: assms(3,4))
  have ch: "weighted T ?taps (\<lambda>p. of_nat (unat (alpha p)) * of_nat (unat (sel p)))
              = of_nat (unat m) * ?A"
    if "sel (Pixel m m m 255) = m" for sel
  proof -
    have "weighted T ?taps (\<lambda>p. of_nat (unat (alpha p)) * of_nat (unat (sel p)))
            = (255 * of_nat (unat m)) * sum_list (map (\<lambda>t. if painted c (fst t) then snd t else 0) ?taps)"
      by (rule weighted_scale) (simp add: assms(3,4) that)
    then show ?thesis by (simp add: coverage_def)
  qed
  have r: "weighted T ?taps (\<lambda>p. of_nat (unat (alpha p)) * of_nat (unat (red p)))
             = of_nat (unat m) * ?A"
    and g: "weighted T ?taps (\<lambda>p. of_nat (unat (alpha p)) * of_nat (unat (green p)))
             = of_nat (unat m) * ?A"
    and b: "weighted T ?taps (\<lambda>p. of_nat (unat (alpha p)) * of_nat (unat (blue p)))
             = of_nat (unat m) * ?A"
    by (rule ch, simp)+
  show ?thesis
  proof (cases "?A \<le> 0")
    case True
    then show ?thesis by (simp only: resample_def Let_def assms(1,2) a if_True)
  next
    case False
    then have "(of_nat (unat m) :: rat) * ?A / ?A = of_nat (unat m)" by simp
    with False show ?thesis
      by (simp only: resample_def Let_def assms(1,2) a r g b if_False to_byte_unat level_def)
  qed
qed

lemma source_over_white_black: "source_over (Pixel 255 255 255 L) black = grey L"
proof -
  have "unat L < 256" using unsigned_less [of L] by simp
  then show ?thesis by (auto simp: source_over_def blend_def black_def grey_def Let_def)
qed

lemma source_over_black_white: "source_over (Pixel 0 0 0 L) white = complement (grey L)"
proof -
  have l: "unat L < 256" using unsigned_less [of L] by simp
  then have "255 * 255 * (255 - unat L) div 255 = 255 * (255 - unat L)" by simp
  moreover have "(of_nat (255 - unat L) :: byte) = 255 - L" using l by (simp add: of_nat_diff)
  ultimately show ?thesis
    using l by (auto simp: source_over_def blend_def white_def grey_def complement_def Let_def)
qed

lemma grey_0: "grey 0 = black" and grey_255: "grey 255 = white"
  by (simp_all add: grey_def black_def white_def)

lemma complement_black: "complement black = white" and complement_white: "complement white = black"
  by (simp_all add: complement_def black_def white_def)

lemma painted_marked:
  "painted c sxy \<longleftrightarrow> 0 < alpha (source_over (tap_pixel c sxy) transparent)"
  by (simp add: painted_def alpha_source_over_transparent)

text \<open>
  The two rasterisations in closed form: pixel \<open>i\<close> of the native mask, at
  \<open>(i mod width, i div width)\<close>, is the grey of the painted share among its taps in
  fill mode, and the complement of that grey in protect mode.
\<close>

lemma magicFillMask_eq:
  assumes "wf_canvas c"
  shows "magicFillMask filt c img
       = Some ((createCanvas (naturalWidth img) (naturalHeight img))\<lparr>bitmap :=
           map (\<lambda>i. grey (level filt c (naturalWidth img, naturalHeight img)
                             (i mod naturalWidth img, i div naturalWidth img)))
             [0..<naturalWidth img * naturalHeight img]\<rparr>)"
proof -
  let ?w = "cwidth c" and ?h = "cheight c"
  let ?g = "\<lambda>p. if alpha (source_over p transparent) > 0 then white else source_over p transparent"
  let ?temp = "(createCanvas ?w ?h)\<lparr>bitmap := map (\<lambda>p. source_over p transparent) (bitmap c)\<rparr>"
  let ?qs = "map (\<lambda>p. if alpha p > 0 then white else p)
              (map (\<lambda>p. source_over p transparent) (bitmap c))"
  let ?temp' = "(createCanvas ?w ?h)\<lparr>bitmap := ?qs\<rparr>"
  have len: "length (bitmap c) = ?w * ?h" and w: "0 < ?w" and h: "0 < ?h"
    using assms by (simp_all add: wf_canvas_def)
  have d: "drawImage c (createCanvas ?w ?h) = Some ?temp"
    by (rule drawImage_onto_blank [OF assms])
  have g: "getImageData ?temp
             = Some \<lparr>iwidth = ?w, iheight = ?h,
                     idata = concat (map bytes_of (map (\<lambda>p. source_over p transparent) (bitmap c)))\<rparr>"
    using w h by (simp add: getImageData_def createCanvas_sel)
  have p: "putImageData \<lparr>iwidth = ?w, iheight = ?h,
              idata = concat (map bytes_of ?qs)\<rparr> ?temp = ?temp'"
    using putImageData_same [of ?temp ?qs] len
    by (simp add: createCanvas_sel)
  have s: "tap_pixel ?temp' sxy = ?g (tap_pixel c sxy)" for sxy
    by (rule tap_pixel_map)
       (simp_all add: createCanvas_sel len o_def source_over_transparent_id alpha_transparent)
  have r: "resample filt ?temp' box xy
             = (if 255 * coverage filt c box xy \<le> 0 then transparent
                else Pixel 255 255 255 (level filt c box xy))" for box xy
  proof (rule resample_marked)
    show "tap_pixel ?temp' sxy = Pixel 255 255 255 255" if "painted c sxy" for sxy
      using that by (simp only: s) (simp add: painted_marked white_def)
    show "alpha (tap_pixel ?temp' sxy) = 0" if "\<not> painted c sxy" for sxy
      using that by (simp only: s) (simp add: painted_marked word_gt_0)
  qed (simp_all add: createCanvas_sel)
  have pt: "source_over (resample filt ?temp' box xy) black = grey (level filt c box xy)" for box xy
  proof (cases "255 * coverage filt c box xy \<le> 0")
    case True
    then have "level filt c box xy = 0" by (simp add: level_def to_byte_nonpos)
    with True show ?thesis
      by (simp only: r if_True) (simp add: source_over_clear alpha_transparent alpha_black grey_0)
  next
    case False
    then show ?thesis by (simp only: r if_False source_over_white_black)
  qed
  have "magicFillMask filt c img
      = drawImageScaled filt ?temp' (naturalWidth img, naturalHeight img)
          ((createCanvas (naturalWidth img) (naturalHeight img))
             \<lparr>bitmap := replicate (naturalWidth img * naturalHeight img) black\<rparr>)"
    by (simp add: magicFillMask_def Let_def d g p mark_white_bytes
          fillRect_blank alpha_black createCanvas_sel del: map_map)
  also have "\<dots> = Some ((createCanvas (naturalWidth img) (naturalHeight img))\<lparr>bitmap :=
           map (\<lambda>i. source_over (resample filt ?temp' (naturalWidth img, naturalHeight img)
                            (i mod naturalWidth img, i div naturalWidth img)) black)
             [0..<naturalWidth img * naturalHeight img]\<rparr>)"
    by (rule drawImageScaled_nth) (simp_all add: createCanvas_sel w h)
  also have "\<dots> = Some ((createCanvas (naturalWidth img) (naturalHeight img))\<lparr>bitmap :=
           map (\<lambda>i. grey (level filt c (naturalWidth img, naturalHeight img)
                             (i mod naturalWidth img, i div naturalWidth img)))
             [0..<naturalWidth img * naturalHeight img]\<rparr>)"
    by (simp only: pt)
  finally show ?thesis .
qed

lemma freestyleMask_eq:
  assumes "wf_canvas c"
  shows "freestyleMask filt c img
       = Some ((createCanvas (naturalWidth img) (naturalHeight img))\<lparr>bitmap :=
           map (\<lambda>i. complement (grey (level filt c (naturalWidth img, naturalHeight img)
                             (i mod naturalWidth img, i div naturalWidth img))))
             [0..<naturalWidth img * naturalHeight img]\<rparr>)"
proof -
  let ?w = "cwidth c" and ?h = "cheight c"
  let ?g = "\<lambda>p. if alpha (source_over p transparent) > 0 then black else source_over p transparent"
  let ?temp = "(createCanvas ?w ?h)\<lparr>bitmap := map (\<lambda>p. source_over p transparent) (bitmap c)\<rparr>"
  let ?qs = "map (\<lambda>p. if alpha p > 0 then black else p)
              (map (\<lambda>p. source_over p transparent) (bitmap c))"
  let ?temp' = "(createCanvas ?w ?h)\<lparr>bitmap := ?qs\<rparr>"
  have len: "length (bitmap c) = ?w * ?h" and w: "0 < ?w" and h: "0 < ?h"
    using assms by (simp_all add: wf_canvas_def)
  have d: "drawImage c (createCanvas ?w ?h) = Some ?temp"
    by (rule drawImage_onto_blank [OF assms])
  have g: "getImageData ?temp
             = Some \<lparr>iwidth = ?w, iheight = ?h,
                     idata = concat (map bytes_of (map (\<lambda>p. source_over p transparent) (bitmap c)))\<rparr>"
    using w h by (simp add: getImageData_def createCanvas_sel)
  have p: "putImageData \<lparr>iwidth = ?w, iheight = ?h,
              idata = concat (map bytes_of ?qs)\<rparr> ?temp = ?temp'"
    using putImageData_same [of ?temp ?qs] len
    by (simp add: createCanvas_sel)
  have s: "tap_pixel ?temp' sxy = ?g (tap_pixel c sxy)" for sxy
    by (rule tap_pixel_map)
       (simp_all add: createCanvas_sel len o_def source_over_transparent_id alpha_transparent)
  have r: "resample filt ?temp' box xy
             = (if 255 * coverage filt c box xy \<le> 0 then transparent
                else Pixel 0 0 0 (level filt c box xy))" for box xy
  proof (rule resample_marked)
    show "tap_pixel ?temp' sxy = Pixel 0 0 0 255" if "painted c sxy" for sxy
      using that by (simp only: s) (simp add: painted_marked black_def)
    show "alpha (tap_pixel ?temp' sxy) = 0" if "\<not> painted c sxy" for sxy
      using that by (simp only: s) (simp add: painted_marked word_gt_0)
  qed (simp_all add: createCanvas_sel)
  have pt: "source_over (resample filt ?temp' box xy) white
              = complement (grey (level filt c box xy))" for box xy
  proof (cases "255 * coverage filt c box xy \<le> 0")
    case True
    then have "level filt c box xy = 0" by (simp add: level_def to_byte_nonpos)
    with True show ?thesis
      by (simp only: r if_True)
         (simp add: source_over_clear alpha_transparent alpha_white grey_0 complement_black)
  next
    case False
    then show ?thesis by (simp only: r if_False source_over_black_white)
  qed
  have "freestyleMask filt c img
      = drawImageScaled filt ?temp' (naturalWidth img, naturalHeight img)
          ((createCanvas (naturalWidth img) (naturalHeight img))
             \<lparr>bitmap := replicate (naturalWidth img * naturalHeight img) white\<rparr>)"
    by (simp add: freestyleMask_def Let_def d g p mark_black_bytes
          fillRect_blank alpha_white createCanvas_sel del: map_map)
  also have "\<dots> = Some ((createCanvas (naturalWidth img) (naturalHeight img))\<lparr>bitmap :=
           map (\<lambda>i. source_over (resample filt ?temp' (naturalWidth img, naturalHeight img)
                            (i mod naturalWidth img, i div naturalWidth img)) white)
             [0..<naturalWidth img * naturalHeight img]\<rparr>)"
    by (rule drawImageScaled_nth) (simp_all add: createCanvas_sel w h)
  also have "\<dots> = Some ((createCanvas (naturalWidth img) (naturalHeight img))\<lparr>bitmap :=
           map (\<lambda>i. complement (grey (level filt c (naturalWidth img, naturalHeight img)
                             (i mod naturalWidth img, i div naturalWidth img))))
             [0..<naturalWidth img * naturalHeight img]\<rparr>)"
    by (simp only: pt)
  finally show ?thesis .
qed

lemma getImageData_wf:
  "wf_canvas c \<Longrightarrow>
     getImageData c = Some \<lparr>iwidth = cwidth c, iheight = cheight c,
                             idata = concat (map bytes_of (bitmap c))\<rparr>"
  by (simp add: getImageData_def wf_canvas_def)

lemma upt_8: "[0..<8] = [0, 1, 2, 3, 4, 5, 6, 7]"
  by code_simp

lemma replicate_8: "replicate 8 x = [x, x, x, x, x, x, x, x]"
  by (simp add: numeral_eq_Suc)

text \<open>
  The weights of the bilinear filter add up to one. When the box has the size of
  the source it copies: the pixel itself has weight one.
\<close>

lemma bilinear_weights: "sum_list (map snd (bilinear src box xy)) = 1"
  by (simp add: bilinear_def Let_def algebra_simps)

lemma clamp_index_inside: "x < n \<Longrightarrow> clamp_index (int x) n = x"
  by (simp add: clamp_index_def)

lemma bilinear_same_size:
  assumes "x < w" and "y < h"
  shows "bilinear (w, h) (w, h) (x, y)
       = [((x, y), 1), ((clamp_index (int x + 1) w, y), 0),
          ((x, clamp_index (int y + 1) h), 0),
          ((clamp_index (int x + 1) w, clamp_index (int y + 1) h), 0)]"
proof -
  have u: "(of_nat x + 1 / 2) * of_nat w / of_nat w - 1 / 2 = (of_nat x :: rat)"
    and v: "(of_nat y + 1 / 2) * of_nat h / of_nat h - 1 / 2 = (of_nat y :: rat)"
    using assms by simp_all
  show ?thesis
    unfolding bilinear_def Let_def fst_conv snd_conv u v
    by (simp add: clamp_index_inside assms)
qed

lemma level_same_size:
  assumes "x < cwidth c" and "y < cheight c"
  shows "grey (level bilinear c (cwidth c, cheight c) (x, y))
       = (if painted c (x, y) then white else black)"
  by (simp add: level_def coverage_def bilinear_same_size [OF assms] to_byte_255 to_byte_nonpos
        grey_0 grey_255)

lemma tap_pixel_index:
  assumes "0 < cwidth c" and "i < cwidth c * cheight c"
  shows "tap_pixel c (i mod cwidth c, i div cwidth c) = bitmap c ! i"
  using assms by (simp add: tap_pixel_def grid_div)

lemma fill_same_size:
  assumes "wf_canvas c"
  shows "map (\<lambda>i. grey (level bilinear c (cwidth c, cheight c) (i mod cwidth c, i div cwidth c)))
           [0..<cwidth c * cheight c]
       = map (\<lambda>p. if alpha p > 0 then white else black) (bitmap c)"
proof (rule nth_equalityI)
  show "length (map (\<lambda>i. grey (level bilinear c (cwidth c, cheight c)
                  (i mod cwidth c, i div cwidth c))) [0..<cwidth c * cheight c])
      = length (map (\<lambda>p. if alpha p > 0 then white else black) (bitmap c))"
    using assms by (simp add: wf_canvas_def)
next
  fix i
  assume "i < length (map (\<lambda>i. grey (level bilinear c (cwidth c, cheight c)
                  (i mod cwidth c, i div cwidth c))) [0..<cwidth c * cheight c])"
  then have i: "i < cwidth c * cheight c" by simp
  have w: "0 < cwidth c" and len: "length (bitmap c) = cwidth c * cheight c"
    using assms by (simp_all add: wf_canvas_def)
  have "grey (level bilinear c (cwidth c, cheight c) (i mod cwidth c, i div cwidth c))
          = (if painted c (i mod cwidth c, i div cwidth c) then white else black)"
    using w by (intro level_same_size) (simp_all add: grid_div i)
  also have "\<dots> = (if alpha (bitmap c ! i) > 0 then white else black)"
    by (simp add: painted_def tap_pixel_index [OF w i])
  finally show "map (\<lambda>i. grey (level bilinear c (cwidth c, cheight c)
                  (i mod cwidth c, i div cwidth c))) [0..<cwidth c * cheight c] ! i
      = map (\<lambda>p. if alpha p > 0 then white else black) (bitmap c) ! i"
    using i by (simp add: len)
qed

text \<open>The example: a surface of two pixels, the left one painted, scaled to four by two.\<close>

lemma wf_painted_surface: "wf_canvas painted_surface" and wf_blank_surface: "wf_canvas blank_surface"
  by (simp_all add: wf_canvas_def painted_surface_def blank_surface_def)

lemma painted_example_iff: "painted painted_surface (x, y) \<longleftrightarrow> x = 0 \<and> y = 0"
proof (cases "x = 0")
  case True
  then show ?thesis by (simp add: painted_def tap_pixel_def painted_surface_def transparent_def)
next
  case False
  then have "x = 1 \<or> 2 \<le> x" by auto
  with False show ?thesis
    by (auto simp: painted_def tap_pixel_def painted_surface_def transparent_def)
qed

lemma bilinear_example:
  "bilinear (2, 1) (4, 2) (0, 0) = [((0, 0), 1 / 16), ((0, 0), 3 / 16), ((0, 0), 3 / 16), ((0, 0), 9 / 16)]"
  "bilinear (2, 1) (4, 2) (1, 0) = [((0, 0), 3 / 16), ((1, 0), 1 / 16), ((0, 0), 9 / 16), ((1, 0), 3 / 16)]"
  "bilinear (2, 1) (4, 2) (2, 0) = [((0, 0), 1 / 16), ((1, 0), 3 / 16), ((0, 0), 3 / 16), ((1, 0), 9 / 16)]"
  "bilinear (2, 1) (4, 2) (3, 0) = [((1, 0), 3 / 16), ((1, 0), 1 / 16), ((1, 0), 9 / 16), ((1, 0), 3 / 16)]"
  "bilinear (2, 1) (4, 2) (0, 1) = [((0, 0), 3 / 16), ((0, 0), 9 / 16), ((0, 0), 1 / 16), ((0, 0), 3 / 16)]"
  "bilinear (2, 1) (4, 2) (1, 1) = [((0, 0), 9 / 16), ((1, 0), 3 / 16), ((0, 0), 3 / 16), ((1, 0), 1 / 16)]"
  "bilinear (2, 1) (4, 2) (2, 1) = [((0, 0), 3 / 16), ((1, 0), 9 / 16), ((0, 0), 1 / 16), ((1, 0), 3 / 16)]"
  "bilinear (2, 1) (4, 2) (3, 1) = [((1, 0), 9 / 16), ((1, 0), 3 / 16), ((1, 0), 3 / 16), ((1, 0), 1 / 16)]"
proof -
  have f: "\<lfloor>- (1 / 4) :: rat\<rfloor> = - 1" "\<lfloor>1 / 4 :: rat\<rfloor> = 0" "\<lfloor>3 / 4 :: rat\<rfloor> = 0"
    "\<lfloor>5 / 4 :: rat\<rfloor> = 1"
    by (simp_all add: floor_eq_iff)
  show "bilinear (2, 1) (4, 2) (0, 0) = [((0, 0), 1 / 16), ((0, 0), 3 / 16), ((0, 0), 3 / 16), ((0, 0), 9 / 16)]"
  "bilinear (2, 1) (4, 2) (1, 0) = [((0, 0), 3 / 16), ((1, 0), 1 / 16), ((0, 0), 9 / 16), ((1, 0), 3 / 16)]"
  "bilinear (2, 1) (4, 2) (2, 0) = [((0, 0), 1 / 16), ((1, 0), 3 / 16), ((0, 0), 3 / 16), ((1, 0), 9 / 16)]"
  "bilinear (2, 1) (4, 2) (3, 0) = [((1, 0), 3 / 16), ((1, 0), 1 / 16), ((1, 0), 9 / 16), ((1, 0), 3 / 16)]"
  "bilinear (2, 1) (4, 2) (0, 1) = [((0, 0), 3 / 16), ((0, 0), 9 / 16), ((0, 0), 1 / 16), ((0, 0), 3 / 16)]"
  "bilinear (2, 1) (4, 2) (1, 1) = [((0, 0), 9 / 16), ((1, 0), 3 / 16), ((0, 0), 3 / 16), ((1, 0), 1 / 16)]"
  "bilinear (2, 1) (4, 2) (2, 1) = [((0, 0), 3 / 16), ((1, 0), 9 / 16), ((0, 0), 1 / 16), ((1, 0), 3 / 16)]"
  "bilinear (2, 1) (4, 2) (3, 1) = [((1, 0), 9 / 16), ((1, 0), 3 / 16), ((1, 0), 3 / 16), ((1, 0), 1 / 16)]"
    by (simp_all add: bilinear_def clamp_index_def Let_def f)
qed

lemma coverage_example:
  "coverage bilinear painted_surface (4, 2) (0, 0) = 1"
  "coverage bilinear painted_surface (4, 2) (1, 0) = 3 / 4"
  "coverage bilinear painted_surface (4, 2) (2, 0) = 1 / 4"
  "coverage bilinear painted_surface (4, 2) (3, 0) = 0"
  "coverage bilinear painted_surface (4, 2) (0, 1) = 1"
  "coverage bilinear painted_surface (4, 2) (1, 1) = 3 / 4"
  "coverage bilinear painted_surface (4, 2) (2, 1) = 1 / 4"
  "coverage bilinear painted_surface (4, 2) (3, 1) = 0"
proof -
  have s: "cwidth painted_surface = 2" "cheight painted_surface = 1"
    by (simp_all add: painted_surface_def)
  show "coverage bilinear painted_surface (4, 2) (0, 0) = 1"
  "coverage bilinear painted_surface (4, 2) (1, 0) = 3 / 4"
  "coverage bilinear painted_surface (4, 2) (2, 0) = 1 / 4"
  "coverage bilinear painted_surface (4, 2) (3, 0) = 0"
  "coverage bilinear painted_surface (4, 2) (0, 1) = 1"
  "coverage bilinear painted_surface (4, 2) (1, 1) = 3 / 4"
  "coverage bilinear painted_surface (4, 2) (2, 1) = 1 / 4"
  "coverage bilinear painted_surface (4, 2) (3, 1) = 0"
    unfolding coverage_def s bilinear_example by (simp_all add: painted_example_iff)
qed

lemma level_points:
  "level bilinear painted_surface (4, 2) (0, 0) = 255"
  "level bilinear painted_surface (4, 2) (1, 0) = 191"
  "level bilinear painted_surface (4, 2) (2, 0) = 64"
  "level bilinear painted_surface (4, 2) (3, 0) = 0"
  "level bilinear painted_surface (4, 2) (0, 1) = 255"
  "level bilinear painted_surface (4, 2) (1, 1) = 191"
  "level bilinear painted_surface (4, 2) (2, 1) = 64"
  "level bilinear painted_surface (4, 2) (3, 1) = 0"
proof -
  have f: "\<lfloor>257 / 4 :: rat\<rfloor> = 64" "\<lfloor>767 / 4 :: rat\<rfloor> = 191"
    by (simp_all add: floor_eq_iff)
  show "level bilinear painted_surface (4, 2) (0, 0) = 255"
  "level bilinear painted_surface (4, 2) (1, 0) = 191"
  "level bilinear painted_surface (4, 2) (2, 0) = 64"
  "level bilinear painted_surface (4, 2) (3, 0) = 0"
  "level bilinear painted_surface (4, 2) (0, 1) = 255"
  "level bilinear painted_surface (4, 2) (1, 1) = 191"
  "level bilinear painted_surface (4, 2) (2, 1) = 64"
  "level bilinear painted_surface (4, 2) (3, 1) = 0"
    unfolding level_def coverage_example by (simp_all add: to_byte_def round_def f)
qed

lemma grid_4x2:
  "map g [0..<4 * 2]
     = [g 0, g 1, g 2, g 3, g 4, g 5, g 6, g (7::nat)]"
  using upt_8 by simp

lemma index_4x2:
  "(0 mod 4, 0 div 4) = (0::nat, 0::nat)" "(1 mod 4, 1 div 4) = (1::nat, 0::nat)"
  "(2 mod 4, 2 div 4) = (2::nat, 0::nat)" "(3 mod 4, 3 div 4) = (3::nat, 0::nat)"
  "(4 mod 4, 4 div 4) = (0::nat, 1::nat)" "(5 mod 4, 5 div 4) = (1::nat, 1::nat)"
  "(6 mod 4, 6 div 4) = (2::nat, 1::nat)" "(7 mod 4, 7 div 4) = (3::nat, 1::nat)"
  by simp_all

lemma level_example:
  "map (\<lambda>i. grey (level bilinear painted_surface (4, 2) (i mod 4, i div 4))) [0..<4 * 2]
     = [white, grey 191, grey 64, black, white, grey 191, grey 64, black]"
  unfolding grid_4x2 index_4x2 level_points grey_0 grey_255 by (rule refl)

lemma complement_greys: "complement (grey 191) = grey 64" "complement (grey 64) = grey 191"
  by (simp_all add: complement_def grey_def)

lemma complement_level_example:
  "map (\<lambda>i. complement (grey (level bilinear painted_surface (4, 2) (i mod 4, i div 4))))
     [0..<4 * 2]
     = [black, grey 64, grey 191, white, black, grey 64, grey 191, white]"
  unfolding grid_4x2 index_4x2 level_points grey_0 grey_255 complement_black complement_white
    complement_greys
  by (rule refl)

lemma taps_example:
  "list_all (\<lambda>t. painted painted_surface (fst t)) (bilinear (2, 1) (4, 2) (0, 0))"
  "sum_list (map snd (bilinear (2, 1) (4, 2) (0, 0))) = 1"
  "list_all (\<lambda>t. \<not> painted painted_surface (fst t)) (bilinear (2, 1) (4, 2) (3, 0))"
  unfolding bilinear_example by (simp_all add: painted_example_iff)

lemma sum_painted_all:
  "list_all (\<lambda>t. painted c (fst t)) ts \<Longrightarrow>
     sum_list (map (\<lambda>t. if painted c (fst t) then snd t else 0) ts)
       = sum_list (map snd (ts :: ((nat \<times> nat) \<times> rat) list))"
  by (induction ts) simp_all

lemma sum_painted_none:
  "list_all (\<lambda>t. \<not> painted c (fst t)) ts \<Longrightarrow>
     sum_list (map (\<lambda>t. if painted c (fst t) then snd t else 0)
       (ts :: ((nat \<times> nat) \<times> rat) list)) = 0"
  by (induction ts) simp_all

lemma level_full:
  assumes "list_all (\<lambda>t. painted c (fst t)) (filt (cwidth c, cheight c) box xy)"
    and "sum_list (map snd (filt (cwidth c, cheight c) box xy)) = 1"
  shows "grey (level filt c box xy) = white"
  using sum_painted_all [of c "filt (cwidth c, cheight c) box xy"] assms
  by (simp add: level_def coverage_def to_byte_255 grey_255)

lemma level_none:
  assumes "list_all (\<lambda>t. \<not> painted c (fst t)) (filt (cwidth c, cheight c) box xy)"
  shows "grey (level filt c box xy) = black"
  using sum_painted_none [of c "filt (cwidth c, cheight c) box xy"] assms
  by (simp add: level_def coverage_def to_byte_nonpos grey_0)

lemma unpainted_surface:
  assumes "length (bitmap c) = cwidth c * cheight c" and "\<forall>p \<in> set (bitmap c). alpha p = 0"
  shows "\<not> painted c sxy"
  using assms by (simp add: painted_def tap_pixel_def grid_index alpha_transparent)

lemma level_unpainted:
  assumes "wf_canvas c" and "\<forall>p \<in> set (bitmap c). alpha p = 0"
  shows "grey (level filt c box xy) = black"
proof -
  have "\<not> painted c sxy" for sxy
    using assms by (intro unpainted_surface) (simp_all add: wf_canvas_def)
  then have "coverage filt c box xy = 0" by (simp add: coverage_def)
  then show ?thesis by (simp add: level_def to_byte_nonpos grey_0)
qed

text \<open>
  C3. Fill-mode rasterisation of a well-formed mask surface \<open>c\<close>, with any
  interpolation \<open>filt\<close>.
  \<^item> The loop over the pixel data turns every pixel whose alpha is above zero
    into opaque white and leaves every other pixel as it is.
  \<^item> The native mask has the natural size of the image, and each of its pixels is
    an opaque grey: the share of the painted pixels among the pixels it is
    interpolated from, as a byte.
  \<^item> A pixel of the native mask is white when all the pixels it is interpolated
    from are painted (and the weights add up to one), and black when none is. A
    pixel that is interpolated from both is neither (the example below).
  \<^item> A surface whose pixels all have alpha zero, of any size, rasterises to an
    all-black native mask.
  \<^item> With the bilinear filter and a surface of the natural size of the image
    nothing is interpolated: the native mask is white at the painted pixels and
    black at the others.
\<close>

theorem fill_mask_rasterization:
  assumes "wf_canvas c"
  shows "map_option (\<lambda>d. pixels_of (mark_white (idata d))) (getImageData c)
           = Some (map (\<lambda>p. if alpha p > 0 then white else p) (bitmap c))
       \<and> map_option (\<lambda>m. (cwidth m, cheight m, bitmap m)) (magicFillMask filt c img)
           = Some (naturalWidth img, naturalHeight img,
                   map (\<lambda>i. grey (level filt c (naturalWidth img, naturalHeight img)
                                     (i mod naturalWidth img, i div naturalWidth img)))
                     [0..<naturalWidth img * naturalHeight img])
       \<and> (list_all (\<lambda>t. painted c (fst t)) (filt (cwidth c, cheight c) box xy)
            \<and> sum_list (map snd (filt (cwidth c, cheight c) box xy)) = 1 \<longrightarrow>
            grey (level filt c box xy) = white)
       \<and> (list_all (\<lambda>t. \<not> painted c (fst t)) (filt (cwidth c, cheight c) box xy) \<longrightarrow>
            grey (level filt c box xy) = black)
       \<and> ((\<forall>p \<in> set (bitmap c). alpha p = 0) \<longrightarrow>
            map_option bitmap (magicFillMask filt c img)
              = Some (replicate (naturalWidth img * naturalHeight img) black))
       \<and> (naturalWidth img = cwidth c \<and> naturalHeight img = cheight c \<longrightarrow>
            map_option bitmap (magicFillMask bilinear c img)
              = Some (map (\<lambda>p. if alpha p > 0 then white else black) (bitmap c)))"
proof (intro conjI impI)
  show "map_option (\<lambda>d. pixels_of (mark_white (idata d))) (getImageData c)
          = Some (map (\<lambda>p. if alpha p > 0 then white else p) (bitmap c))"
    by (simp add: getImageData_wf [OF assms] mark_white_bytes pixels_of_bytes del: map_map)
next
  show "map_option (\<lambda>m. (cwidth m, cheight m, bitmap m)) (magicFillMask filt c img)
           = Some (naturalWidth img, naturalHeight img,
                   map (\<lambda>i. grey (level filt c (naturalWidth img, naturalHeight img)
                                     (i mod naturalWidth img, i div naturalWidth img)))
                     [0..<naturalWidth img * naturalHeight img])"
    by (simp add: magicFillMask_eq [OF assms] createCanvas_sel)
next
  assume "list_all (\<lambda>t. painted c (fst t)) (filt (cwidth c, cheight c) box xy)
            \<and> sum_list (map snd (filt (cwidth c, cheight c) box xy)) = 1"
  then show "grey (level filt c box xy) = white"
    using level_full [of c filt box xy] by simp
next
  assume "list_all (\<lambda>t. \<not> painted c (fst t)) (filt (cwidth c, cheight c) box xy)"
  then show "grey (level filt c box xy) = black"
    using level_none [of c filt box xy] by simp
next
  assume clear: "\<forall>p \<in> set (bitmap c). alpha p = 0"
  show "map_option bitmap (magicFillMask filt c img)
          = Some (replicate (naturalWidth img * naturalHeight img) black)"
    by (simp add: magicFillMask_eq [OF assms] level_unpainted [OF assms clear]
          map_replicate_const)
next
  assume "naturalWidth img = cwidth c \<and> naturalHeight img = cheight c"
  then show "map_option bitmap (magicFillMask bilinear c img)
          = Some (map (\<lambda>p. if alpha p > 0 then white else black) (bitmap c))"
    by (simp add: magicFillMask_eq [OF assms] fill_same_size [OF assms])
qed

theorem fill_mask_rasterization_witness:
  "wf_canvas painted_surface \<and> wf_canvas blank_surface
   \<and> list_all (\<lambda>t. painted painted_surface (fst t)) (bilinear (2, 1) (4, 2) (0, 0))
   \<and> sum_list (map snd (bilinear (2, 1) (4, 2) (0, 0))) = 1
   \<and> list_all (\<lambda>t. \<not> painted painted_surface (fst t)) (bilinear (2, 1) (4, 2) (3, 0))
   \<and> list_all (\<lambda>p. alpha p = 0) (bitmap blank_surface)
   \<and> map_option (\<lambda>d. pixels_of (mark_white (idata d))) (getImageData painted_surface)
        = Some [white, transparent]
   \<and> map_option (\<lambda>m. (cwidth m, cheight m, bitmap m))
        (magicFillMask bilinear painted_surface native_4x2)
        = Some (4, 2, [white, grey 191, grey 64, black, white, grey 191, grey 64, black])
   \<and> grey (level bilinear painted_surface (4, 2) (0, 0)) = white
   \<and> grey (level bilinear painted_surface (4, 2) (3, 0)) = black
   \<and> map_option bitmap (magicFillMask bilinear blank_surface native_4x2)
        = Some [black, black, black, black, black, black, black, black]
   \<and> naturalWidth native_2x1 = cwidth painted_surface
   \<and> naturalHeight native_2x1 = cheight painted_surface
   \<and> map_option bitmap (magicFillMask bilinear painted_surface native_2x1)
        = Some [white, black]"
proof -
  note p = wf_painted_surface and b = wf_blank_surface
  have t: "\<forall>p \<in> set (bitmap blank_surface). alpha p = 0"
    by (simp add: blank_surface_def)
  have n: "naturalWidth native_4x2 = 4" "naturalHeight native_4x2 = 2"
    by (simp_all add: native_4x2_def)
  have s: "cwidth painted_surface = 2" "cheight painted_surface = 1"
    by (simp_all add: painted_surface_def)
  have bm: "map (\<lambda>p. if alpha p > 0 then white else p) (bitmap painted_surface) = [white, transparent]"
    by (simp add: painted_surface_def transparent_def)
  from fill_mask_rasterization [OF p, of bilinear native_4x2 "(4, 2)" "(0, 0)"]
  have 1: "map_option (\<lambda>d. pixels_of (mark_white (idata d))) (getImageData painted_surface)
        = Some [white, transparent]"
    and 2: "map_option (\<lambda>m. (cwidth m, cheight m, bitmap m))
        (magicFillMask bilinear painted_surface native_4x2)
        = Some (4, 2, [white, grey 191, grey 64, black, white, grey 191, grey 64, black])"
    and 3: "list_all (\<lambda>t. painted painted_surface (fst t)) (bilinear (2, 1) (4, 2) (0, 0))
            \<and> sum_list (map snd (bilinear (2, 1) (4, 2) (0, 0))) = 1 \<longrightarrow>
            grey (level bilinear painted_surface (4, 2) (0, 0)) = white"
    unfolding n s level_example bm by blast+
  from fill_mask_rasterization [OF p, of bilinear native_4x2 "(4, 2)" "(3, 0)"]
  have 4: "list_all (\<lambda>t. \<not> painted painted_surface (fst t)) (bilinear (2, 1) (4, 2) (3, 0)) \<longrightarrow>
            grey (level bilinear painted_surface (4, 2) (3, 0)) = black"
    unfolding s by blast
  from fill_mask_rasterization [OF b, of bilinear native_4x2] t
  have 5: "map_option bitmap (magicFillMask bilinear blank_surface native_4x2)
        = Some [black, black, black, black, black, black, black, black]"
    unfolding n by (simp add: replicate_8)
  have t': "list_all (\<lambda>p. alpha p = 0) (bitmap blank_surface)"
    by (simp add: blank_surface_def)
  have e: "naturalWidth native_2x1 = cwidth painted_surface"
    "naturalHeight native_2x1 = cheight painted_surface"
    by (simp_all add: native_2x1_def painted_surface_def)
  have bk: "map (\<lambda>p. if alpha p > 0 then white else black) (bitmap painted_surface)
              = [white, black]"
    by (simp add: painted_surface_def)
  from fill_mask_rasterization [OF p, of bilinear native_2x1] e
  have 6: "map_option bitmap (magicFillMask bilinear painted_surface native_2x1)
        = Some [white, black]"
    unfolding bk by blast
  from p b t' 1 2 3 4 5 6 e taps_example show ?thesis by blast
qed

theorem fill_mask_edge_counterexample:
  "wf_canvas painted_surface
   \<and> bitmap painted_surface = [Pixel 74 144 226 153, Pixel 0 0 0 0]
   \<and> map_option (\<lambda>m. (cwidth m, cheight m, bitmap m))
        (magicFillMask bilinear painted_surface native_4x2)
        = Some (4, 2, [Pixel 255 255 255 255, Pixel 191 191 191 255, Pixel 64 64 64 255,
                       Pixel 0 0 0 255, Pixel 255 255 255 255, Pixel 191 191 191 255,
                       Pixel 64 64 64 255, Pixel 0 0 0 255])
   \<and> Pixel 191 191 191 255 \<noteq> white \<and> Pixel 191 191 191 255 \<noteq> black
   \<and> Pixel 64 64 64 255 \<noteq> white \<and> Pixel 64 64 64 255 \<noteq> black"
proof -
  have n: "naturalWidth native_4x2 = 4" "naturalHeight native_4x2 = 2"
    by (simp_all add: native_4x2_def)
  have "magicFillMask bilinear painted_surface native_4x2
      = Some ((createCanvas 4 2)\<lparr>bitmap :=
           [white, grey 191, grey 64, black, white, grey 191, grey 64, black]\<rparr>)"
    using magicFillMask_eq [OF wf_painted_surface, of bilinear native_4x2]
    unfolding n level_example .
  then have 1: "map_option (\<lambda>m. (cwidth m, cheight m, bitmap m))
        (magicFillMask bilinear painted_surface native_4x2)
        = Some (4, 2, [Pixel 255 255 255 255, Pixel 191 191 191 255, Pixel 64 64 64 255,
                       Pixel 0 0 0 255, Pixel 255 255 255 255, Pixel 191 191 191 255,
                       Pixel 64 64 64 255, Pixel 0 0 0 255])"
    by (simp add: createCanvas_sel grey_def white_def black_def)
  have 2: "bitmap painted_surface = [Pixel 74 144 226 153, Pixel 0 0 0 0]"
    by (simp add: painted_surface_def)
  have 3: "Pixel 191 191 191 255 \<noteq> white" "Pixel 191 191 191 255 \<noteq> black"
    "Pixel 64 64 64 255 \<noteq> white" "Pixel 64 64 64 255 \<noteq> black"
    by (simp_all add: white_def black_def)
  from wf_painted_surface 1 2 3 show ?thesis by blast
qed



section \<open>Properties of mask painting\<close>

lemma activeMask_set [simp]: "activeMask (setActiveMask m s) = m"
  by (simp add: activeMask_def setActiveMask_def)

lemma activeTab_set [simp]: "activeTab (setActiveMask m s) = activeTab s"
  by (simp add: setActiveMask_def)

lemma loadingMessage_set [simp]: "loadingMessage (setActiveMask m s) = loadingMessage s"
  by (simp add: setActiveMask_def)

lemma hasDrawing_bytes:
  "hasDrawing \<lparr>iwidth = w, iheight = h, idata = concat (map bytes_of ps)\<rparr>
     \<longleftrightarrow> (\<exists>p \<in> set ps. p \<noteq> transparent)"
proof -
  have "(\<exists>ch \<in> set (bytes_of p). ch \<noteq> 0) \<longleftrightarrow> p \<noteq> transparent" for p
    by (cases p) (auto simp: bytes_of_def transparent_def)
  then show ?thesis by (simp add: hasDrawing_def list_ex_iff)
qed

lemma startDrawing_mid:
  assumes "paintable s" and "canvasRef (activeMask s) = Some c"
  shows "mid_stroke (activeTab s)
           (maskHistoryRef (activeMask s)
              @ [\<lparr>iwidth = cwidth c, iheight = cheight c,
                   idata = concat (map bytes_of (bitmap c))\<rparr>]) c (startDrawing e s)"
  using assms
  by (auto simp: paintable_def startDrawing_def mid_stroke_def getImageData_wf same_shape_def
        moveTo_def beginPath_def Let_def)

lemma draw_mid: "mid_stroke t H c s \<Longrightarrow> mid_stroke t H c (draw R e s)"
  by (auto simp: mid_stroke_def draw_def Let_def same_shape_def stroke_def lineTo_def
        split: option.splits)

lemma draws_mid: "mid_stroke t H c s \<Longrightarrow> mid_stroke t H c (foldl (\<lambda>t e. draw R e t) s es)"
  by (induction es arbitrary: s) (simp_all add: draw_mid)

lemma stopDrawing_mid: "mid_stroke t H c s \<Longrightarrow> mid_stroke t H c (stopDrawing s)"
  by (auto simp: mid_stroke_def stopDrawing_def Let_def same_shape_def closePath_def
        split: option.splits)

lemma paintStroke_mid:
  assumes "paintable s" and "canvasRef (activeMask s) = Some c"
  shows "mid_stroke (activeTab s)
           (maskHistoryRef (activeMask s)
              @ [\<lparr>iwidth = cwidth c, iheight = cheight c,
                   idata = concat (map bytes_of (bitmap c))\<rparr>]) c (paintStroke R s st)"
  unfolding paintStroke_def
  by (intro stopDrawing_mid draws_mid startDrawing_mid assms)

lemma undo_mid:
  assumes "mid_stroke t (H @ [\<lparr>iwidth = cwidth c, iheight = cheight c,
                   idata = concat (map bytes_of (bitmap c))\<rparr>]) c s"
    and "wf_canvas c"
  shows "surface (undoMaskStroke s) = Some (cwidth c, cheight c, bitmap c)"
    and "maskHistoryRef (activeMask (undoMaskStroke s)) = H"
    and "activeTab (undoMaskStroke s) = t"
    and "loadingMessage (undoMaskStroke s) = None"
proof -
  from assms(1) obtain c' where c': "canvasRef (activeMask s) = Some c'" "same_shape c' c"
    and h: "maskHistoryRef (activeMask s) = H @ [\<lparr>iwidth = cwidth c, iheight = cheight c,
                   idata = concat (map bytes_of (bitmap c))\<rparr>]"
    and t: "activeTab s = t" "loadingMessage s = None"
    by (auto simp: mid_stroke_def split: option.splits)
  from c'(2) assms(2) have len: "length (bitmap c') = cwidth c' * cheight c'"
    "length (bitmap c) = cwidth c' * cheight c'" "cwidth c = cwidth c'" "cheight c = cheight c'"
    by (simp_all add: same_shape_def wf_canvas_def)
  have put: "putImageData \<lparr>iwidth = cwidth c', iheight = cheight c',
                   idata = concat (map bytes_of (bitmap c))\<rparr> c' = c'\<lparr>bitmap := bitmap c\<rparr>"
    by (rule putImageData_same [OF len(1,2)])
  show "surface (undoMaskStroke s) = Some (cwidth c, cheight c, bitmap c)"
    by (simp add: undoMaskStroke_def Let_def c' h put surface_def len)
  show "maskHistoryRef (activeMask (undoMaskStroke s)) = H"
    by (simp add: undoMaskStroke_def Let_def c' h)
  show "activeTab (undoMaskStroke s) = t" "loadingMessage (undoMaskStroke s) = None"
    by (simp_all add: undoMaskStroke_def Let_def c' h t)
qed

lemma undo_paintStroke:
  assumes "paintable s"
  shows "surface (undoMaskStroke (paintStroke R s st)) = surface s"
    and "maskHistoryRef (activeMask (undoMaskStroke (paintStroke R s st)))
           = maskHistoryRef (activeMask s)"
    and "activeTab (undoMaskStroke (paintStroke R s st)) = activeTab s"
    and "loadingMessage (undoMaskStroke (paintStroke R s st)) = None"
proof -
  from assms obtain c where c: "canvasRef (activeMask s) = Some c" "wf_canvas c"
    by (auto simp: paintable_def split: option.splits)
  note m = paintStroke_mid [OF assms c(1), of R st]
  from undo_mid [OF m c(2)]
  show "surface (undoMaskStroke (paintStroke R s st)) = surface s"
    and "maskHistoryRef (activeMask (undoMaskStroke (paintStroke R s st)))
           = maskHistoryRef (activeMask s)"
    and "activeTab (undoMaskStroke (paintStroke R s st)) = activeTab s"
    and "loadingMessage (undoMaskStroke (paintStroke R s st)) = None"
    by (simp_all add: surface_def c)
qed

lemma putImageData_shape:
  "cwidth a = cwidth b \<Longrightarrow> cheight a = cheight b \<Longrightarrow> bitmap a = bitmap b \<Longrightarrow>
     cwidth (putImageData d a) = cwidth (putImageData d b) \<and>
     cheight (putImageData d a) = cheight (putImageData d b) \<and>
     bitmap (putImageData d a) = bitmap (putImageData d b)"
  by (simp add: putImageData_def Let_def cong: if_cong)

lemma undo_alike:
  assumes "alike a b"
  shows "alike (undoMaskStroke a) (undoMaskStroke b)"
proof (cases "canvasRef (activeMask a)")
  case None
  with assms have "canvasRef (activeMask b) = None"
    by (simp add: alike_def surface_def)
  with None assms show ?thesis by (simp add: undoMaskStroke_def Let_def)
next
  case (Some ca)
  with assms have "map_option (\<lambda>c. (cwidth c, cheight c, bitmap c)) (canvasRef (activeMask b))
                     = Some (cwidth ca, cheight ca, bitmap ca)"
    by (simp add: alike_def surface_def)
  then obtain cb where cb: "canvasRef (activeMask b) = Some cb"
    "cwidth ca = cwidth cb" "cheight ca = cheight cb" "bitmap ca = bitmap cb"
    by (cases "canvasRef (activeMask b)") auto
  from assms have h: "maskHistoryRef (activeMask a) = maskHistoryRef (activeMask b)"
    and t: "activeTab a = activeTab b"
    by (simp_all add: alike_def)
  show ?thesis
  proof (cases "maskHistoryRef (activeMask b) = []")
    case True
    with h Some cb assms show ?thesis by (simp add: undoMaskStroke_def Let_def)
  next
    case False
    with h t Some cb(1) putImageData_shape [OF cb(2-4)] show ?thesis
      by (simp add: undoMaskStroke_def Let_def alike_def surface_def)
  qed
qed

lemma undos_alike: "alike a b \<Longrightarrow> alike ((undoMaskStroke ^^ n) a) ((undoMaskStroke ^^ n) b)"
  by (induction n) (simp_all add: undo_alike)

lemma paintStroke_paintable: "paintable s \<Longrightarrow> paintable (paintStroke R s st)"
proof -
  assume p: "paintable s"
  then obtain c where c: "canvasRef (activeMask s) = Some c" "wf_canvas c"
    by (auto simp: paintable_def split: option.splits)
  from paintStroke_mid [OF p c(1), of R st] c(2) p show ?thesis
    by (auto simp: mid_stroke_def paintable_def same_shape_def wf_canvas_def
          split: option.splits)
qed

lemma paintStrokes_paintable: "paintable s \<Longrightarrow> paintable (foldl (paintStroke R) s sts)"
  by (induction sts arbitrary: s) (simp_all add: paintStroke_paintable)

lemma undo_all_strokes:
  "paintable s \<Longrightarrow>
     alike ((undoMaskStroke ^^ length sts) (foldl (paintStroke R) s sts)) s"
proof (induction sts rule: rev_induct)
  case Nil
  then show ?case by (simp add: alike_def)
next
  case (snoc st sts)
  let ?t = "foldl (paintStroke R) s sts"
  have pt: "paintable ?t" by (rule paintStrokes_paintable [OF snoc.prems])
  have "alike (undoMaskStroke (paintStroke R ?t st)) ?t"
    using undo_paintStroke [OF pt, of R st] by (simp add: alike_def)
  then have "alike ((undoMaskStroke ^^ length sts) (undoMaskStroke (paintStroke R ?t st)))
               ((undoMaskStroke ^^ length sts) ?t)"
    by (rule undos_alike)
  moreover have "alike ((undoMaskStroke ^^ length sts) ?t) s"
    by (rule snoc.IH [OF snoc.prems])
  ultimately show ?case
    by (simp add: alike_def funpow_swap1)
qed


lemma painting_example_facts:
  "paintable painting_example"
  "canvasRef (activeMask painting_example) = Some blank_surface"
  "maskHistoryRef (activeMask painting_example) = []"
  by (simp_all add: paintable_def painting_example_def activeMask_def initial_mask_def
        initial_state_def wf_canvas_def blank_surface_def)

lemma upt_2: "[0..<2] = [0, 1]"
  by code_simp

lemma painted_example:
  "surface (paintStroke dot_raster painting_example stroke_a)
     = Some (2, 1, [Pixel 74 144 226 153, Pixel 0 0 0 0])"
  by (simp add: surface_def paintStroke_def stroke_a_def startDrawing_def draw_def
        stopDrawing_def painting_example_def initial_state_def initial_mask_def activeMask_def
        setActiveMask_def getImageData_def blank_surface_def Let_def getCoords_def moveTo_def
        beginPath_def lineTo_def closePath_def stroke_def dot_raster_def upt_2)


text \<open>
  C6. In a paintable state whose active mask canvas is \<open>c\<close>:
  \<^item> a stroke pushes the snapshot of \<open>c\<close>, taken at its pointer-down, on the
    stroke stack;
  \<^item> \<open>undoMaskStroke\<close> after the stroke pops that snapshot and restores it: the
    surface is pixel for pixel the surface before the stroke, and the stack is the
    stack before the stroke;
  \<^item> after any \<open>n\<close> strokes, \<open>n\<close> calls of \<open>undoMaskStroke\<close> give back the surface
    the strokes started from, so a fully transparent surface is fully transparent
    again;
  \<^item> \<open>undoMaskStroke\<close> on an empty stroke stack changes nothing.
  The rasteriser \<open>R\<close> of the strokes is arbitrary.
\<close>

theorem undo_stroke_restores:
  assumes "paintable s" and "canvasRef (activeMask s) = Some c"
  shows "maskHistoryRef (activeMask (paintStroke R s st))
           = maskHistoryRef (activeMask s)
               @ [\<lparr>iwidth = cwidth c, iheight = cheight c,
                    idata = concat (map bytes_of (bitmap c))\<rparr>]
       \<and> surface (undoMaskStroke (paintStroke R s st)) = Some (cwidth c, cheight c, bitmap c)
       \<and> maskHistoryRef (activeMask (undoMaskStroke (paintStroke R s st)))
           = maskHistoryRef (activeMask s)
       \<and> surface ((undoMaskStroke ^^ length sts) (foldl (paintStroke R) s sts))
           = Some (cwidth c, cheight c, bitmap c)
       \<and> (maskHistoryRef (activeMask t) = [] \<longrightarrow> undoMaskStroke t = t)"
proof (intro conjI impI)
  from paintStroke_mid [OF assms, of R st]
  show "maskHistoryRef (activeMask (paintStroke R s st))
           = maskHistoryRef (activeMask s)
               @ [\<lparr>iwidth = cwidth c, iheight = cheight c,
                    idata = concat (map bytes_of (bitmap c))\<rparr>]"
    by (simp add: mid_stroke_def)
next
  from undo_paintStroke(1) [OF assms(1), of R st] assms(2)
  show "surface (undoMaskStroke (paintStroke R s st)) = Some (cwidth c, cheight c, bitmap c)"
    by (simp add: surface_def)
next
  show "maskHistoryRef (activeMask (undoMaskStroke (paintStroke R s st)))
           = maskHistoryRef (activeMask s)"
    by (rule undo_paintStroke(2) [OF assms(1)])
next
  from undo_all_strokes [OF assms(1), of sts R] assms(2)
  show "surface ((undoMaskStroke ^^ length sts) (foldl (paintStroke R) s sts))
           = Some (cwidth c, cheight c, bitmap c)"
    by (simp add: alike_def surface_def)
next
  assume "maskHistoryRef (activeMask t) = []"
  then show "undoMaskStroke t = t"
    by (simp add: undoMaskStroke_def Let_def split: option.splits)
qed

theorem undo_stroke_restores_witness:
  "paintable painting_example
   \<and> canvasRef (activeMask painting_example) = Some blank_surface
   \<and> maskHistoryRef (activeMask painting_example) = []
   \<and> surface (paintStroke dot_raster painting_example stroke_a)
        = Some (2, 1, [Pixel 74 144 226 153, Pixel 0 0 0 0])
   \<and> surface (undoMaskStroke (paintStroke dot_raster painting_example stroke_a))
        = Some (2, 1, [Pixel 0 0 0 0, Pixel 0 0 0 0])
   \<and> surface ((undoMaskStroke ^^ length [stroke_a, stroke_b])
        (foldl (paintStroke dot_raster) painting_example [stroke_a, stroke_b]))
        = Some (2, 1, [Pixel 0 0 0 0, Pixel 0 0 0 0])
   \<and> undoMaskStroke painting_example = painting_example"
proof -
  note f = painting_example_facts
  from undo_stroke_restores [OF f(1,2), of dot_raster stroke_a "[stroke_a, stroke_b]"
         painting_example] f(3)
  have "surface (undoMaskStroke (paintStroke dot_raster painting_example stroke_a))
        = Some (2, 1, [Pixel 0 0 0 0, Pixel 0 0 0 0])"
    and "surface ((undoMaskStroke ^^ length [stroke_a, stroke_b])
        (foldl (paintStroke dot_raster) painting_example [stroke_a, stroke_b]))
        = Some (2, 1, [Pixel 0 0 0 0, Pixel 0 0 0 0])"
    and "undoMaskStroke painting_example = painting_example"
    by (simp_all add: blank_surface_def)
  with f painted_example show ?thesis by blast
qed

text \<open>
  C8. When a stroke ends (\<open>stopDrawing\<close> with a stroke in progress on the canvas
  \<open>c\<close> of the active mask), the flag \<open>isMaskDrawn\<close> of the active mask is set to
  whether some byte of the pixel data is non-zero, that is, whether some pixel
  differs from transparent black. On a bitmap whose pixels of alpha zero are
  transparent black, as the pixels a 2D canvas reads back are, the flag is true
  exactly when some pixel has non-zero alpha. The surface itself is unchanged and
  the stroke is over.
\<close>

theorem stopDrawing_flag:
  assumes "canvasRef (activeMask s) = Some c" and "wf_canvas c" and "isDrawingRef (activeMask s)"
  shows "(isMaskDrawn (activeMask (stopDrawing s)) \<longleftrightarrow> (\<exists>p \<in> set (bitmap c). p \<noteq> transparent))
       \<and> ((\<forall>p \<in> set (bitmap c). alpha p = 0 \<longrightarrow> p = transparent) \<longrightarrow>
            (isMaskDrawn (activeMask (stopDrawing s)) \<longleftrightarrow> (\<exists>p \<in> set (bitmap c). alpha p \<noteq> 0)))
       \<and> surface (stopDrawing s) = Some (cwidth c, cheight c, bitmap c)
       \<and> \<not> isDrawingRef (activeMask (stopDrawing s))"
proof -
  have w: "wf_canvas (closePath c)" and b: "bitmap (closePath c) = bitmap c"
    and d: "cwidth (closePath c) = cwidth c" "cheight (closePath c) = cheight c"
    using assms(2) by (simp_all add: wf_canvas_def closePath_def)
  have m: "activeMask (stopDrawing s)
             = (activeMask s)\<lparr>canvasRef := Some (closePath c), isDrawingRef := False,
                  isMaskDrawn := (\<exists>p \<in> set (bitmap c). p \<noteq> transparent)\<rparr>"
    using assms(1,3) by (simp add: stopDrawing_def Let_def getImageData_wf [OF w] hasDrawing_bytes b)
  have "(\<exists>p \<in> set (bitmap c). p \<noteq> transparent) \<longleftrightarrow> (\<exists>p \<in> set (bitmap c). alpha p \<noteq> 0)"
    if "\<forall>p \<in> set (bitmap c). alpha p = 0 \<longrightarrow> p = transparent"
  proof
    assume "\<exists>p \<in> set (bitmap c). p \<noteq> transparent"
    then obtain p where "p \<in> set (bitmap c)" "p \<noteq> transparent" by blast
    with that show "\<exists>p \<in> set (bitmap c). alpha p \<noteq> 0" by blast
  next
    assume "\<exists>p \<in> set (bitmap c). alpha p \<noteq> 0"
    then obtain p where p: "p \<in> set (bitmap c)" "alpha p \<noteq> 0" by blast
    then have "p \<noteq> transparent" by (auto simp: transparent_def)
    with p show "\<exists>p \<in> set (bitmap c). p \<noteq> transparent" by blast
  qed
  with m show ?thesis by (simp add: surface_def b d)
qed

theorem stopDrawing_flag_witness:
  "canvasRef (activeMask drawing_painted) = Some painted_surface
   \<and> wf_canvas painted_surface \<and> isDrawingRef (activeMask drawing_painted)
   \<and> list_all (\<lambda>p. alpha p = 0 \<longrightarrow> p = transparent) (bitmap painted_surface)
   \<and> list_ex (\<lambda>p. alpha p \<noteq> 0) (bitmap painted_surface)
   \<and> isMaskDrawn (activeMask (stopDrawing drawing_painted))
   \<and> canvasRef (activeMask drawing_blank) = Some blank_surface
   \<and> wf_canvas blank_surface \<and> isDrawingRef (activeMask drawing_blank)
   \<and> list_all (\<lambda>p. alpha p = 0 \<longrightarrow> p = transparent) (bitmap blank_surface)
   \<and> \<not> list_ex (\<lambda>p. alpha p \<noteq> 0) (bitmap blank_surface)
   \<and> \<not> isMaskDrawn (activeMask (stopDrawing drawing_blank))"
proof -
  have a: "canvasRef (activeMask drawing_painted) = Some painted_surface"
    "isDrawingRef (activeMask drawing_painted)"
    "canvasRef (activeMask drawing_blank) = Some blank_surface"
    "isDrawingRef (activeMask drawing_blank)"
    by (simp_all add: drawing_painted_def drawing_blank_def activeMask_def initial_state_def
          initial_mask_def)
  have w: "wf_canvas painted_surface" "wf_canvas blank_surface"
    by (simp_all add: wf_canvas_def painted_surface_def blank_surface_def)
  have p: "\<forall>p \<in> set (bitmap painted_surface). alpha p = 0 \<longrightarrow> p = transparent"
    "\<exists>p \<in> set (bitmap painted_surface). alpha p \<noteq> 0"
    "\<forall>p \<in> set (bitmap blank_surface). alpha p = 0 \<longrightarrow> p = transparent"
    "\<not> (\<exists>p \<in> set (bitmap blank_surface). alpha p \<noteq> 0)"
    by (simp_all add: painted_surface_def blank_surface_def transparent_def)
  from stopDrawing_flag [OF a(1) w(1) a(2)] p(1,2)
  have 1: "isMaskDrawn (activeMask (stopDrawing drawing_painted))" by blast
  from stopDrawing_flag [OF a(3) w(2) a(4)] p(3,4)
  have 2: "\<not> isMaskDrawn (activeMask (stopDrawing drawing_blank))" by blast
  from a w p 1 2 show ?thesis by (simp add: list_all_iff list_ex_iff)
qed

section \<open>The freestyle handler\<close>

lemma freestyle_start_painted:
  assumes "currentImage s = Some cur" and "isMaskDrawn (freestyle s)"
    and "canvasRef (freestyle s) = Some c" and "wf_canvas c" and "imgRef s = Some img"
    and "0 < naturalWidth img" and "0 < naturalHeight img"
  shows "handleApplyFreestyle_start filt p s
       = (s\<lparr>loadingMessage := Some Imagining, error := None\<rparr>,
          Some (GenerateMagicFillImage cur
                  (MaskPng (naturalWidth img) (naturalHeight img)
                     (map (\<lambda>i. complement (grey (level filt c (naturalWidth img, naturalHeight img)
                                         (i mod naturalWidth img, i div naturalWidth img))))
                        [0..<naturalWidth img * naturalHeight img])) p))"
  using assms
  by (simp add: handleApplyFreestyle_start_def freestyleMask_eq maskFile_def createCanvas_sel)

lemma freestyle_start_unpainted:
  assumes "currentImage s = Some cur" and "\<not> isMaskDrawn (freestyle s)"
  shows "handleApplyFreestyle_start filt p s
       = (s\<lparr>loadingMessage := Some Imagining, error := None\<rparr>,
          Some (GenerateAdjustedImage cur p None))"
  using assms by (simp add: handleApplyFreestyle_start_def split: option.splits)

lemma resizeCanvas_unmounted: "canvasRef m = None \<Longrightarrow> resizeCanvas box m = m"
  by (simp add: resizeCanvas_def)

lemma render_loading:
  assumes "loadingMessage s \<noteq> None"
  shows "freestyle (render box prev s) = (freestyle s)\<lparr>canvasRef := None\<rparr>"
    and "magicFill (render box prev s) = (magicFill s)\<lparr>canvasRef := None\<rparr>"
  using assms
  by (auto simp: render_def resizeCanvases_def resizeCanvas_def remount_def mounted_def Let_def
        split: option.splits)

text \<open>Without anything in between, the closures are those of the current state.\<close>

lemma addImageToHistory_stale_same:
  "history cl = history s \<Longrightarrow> historyIndex cl = historyIndex s \<Longrightarrow>
     addImageToHistory_stale cl f s = addImageToHistory f s"
  by (simp add: addImageToHistory_stale_def addImageToHistory_def)

lemma clearMask_stale_same: "activeTab cl = activeTab s \<Longrightarrow> clearMask_stale cl s = clearMask s"
  by (simp add: clearMask_stale_def clearMask_def activeMask_def setActiveMask_def Let_def
        split: option.splits)

lemma clearMask_stale_unmounted:
  "canvasRef (magicFill s) = None \<Longrightarrow> canvasRef (freestyle s) = None \<Longrightarrow> clearMask_stale cl s = s"
  by (simp add: clearMask_stale_def)

text \<open>
  A request that is overtaken: an edit is submitted, the user steps back while it
  is outstanding, and the result arrives. The result is appended to the history
  as it was at the submission, cut after the snapshot that was current then, and
  the cursor moves to it. In \<open>frame_example\<close>, with three snapshots and the cursor
  on the second, the third snapshot is replaced by the result.
\<close>

lemma overtaken_request:
  "history (handleGenerate_resume s (Success 99) (handleUndo (render box s s1)))
     = slice0 (history s) (historyIndex s + 1) @ [ImageFile 99]"
  "historyIndex (handleGenerate_resume s (Success 99) (handleUndo (render box s s1)))
     = int (length (slice0 (history s) (historyIndex s + 1)))"
  by (simp_all add: handleGenerate_resume_def addImageToHistory_stale_def Let_def)

lemma overtaken_example:
  "history (handleGenerate_resume frame_example (Success 99)
              (handleUndo (render (150, 100) frame_example
                 (frame_example\<lparr>loadingMessage := Some Retouching, error := None\<rparr>))))
     = [ImageFile 10, ImageFile 11, ImageFile 99]"
  "historyIndex (handleGenerate_resume frame_example (Success 99)
              (handleUndo (render (150, 100) frame_example
                 (frame_example\<lparr>loadingMessage := Some Retouching, error := None\<rparr>))))
     = 2"
  "historyIndex (handleUndo (render (150, 100) frame_example
                 (frame_example\<lparr>loadingMessage := Some Retouching, error := None\<rparr>))) = 0"
proof -
  have s: "slice0 (history frame_example) (historyIndex frame_example + 1)
             = [ImageFile 10, ImageFile 11]"
    by (simp add: frame_example_def slice0_def)
  show "history (handleGenerate_resume frame_example (Success 99)
              (handleUndo (render (150, 100) frame_example
                 (frame_example\<lparr>loadingMessage := Some Retouching, error := None\<rparr>))))
     = [ImageFile 10, ImageFile 11, ImageFile 99]"
    by (simp add: overtaken_request s)
  show "historyIndex (handleGenerate_resume frame_example (Success 99)
              (handleUndo (render (150, 100) frame_example
                 (frame_example\<lparr>loadingMessage := Some Retouching, error := None\<rparr>))))
     = 2"
    by (simp add: overtaken_request s)
  show "historyIndex (handleUndo (render (150, 100) frame_example
                 (frame_example\<lparr>loadingMessage := Some Retouching, error := None\<rparr>))) = 0"
    by (simp add: handleUndo_def canUndo_def render_def resizeCanvases_def Let_def
          frame_example_def split: option.splits)
qed

lemma freestyle_resume_success:
  assumes "loadingMessage s \<noteq> None"
  shows "handleApplyFreestyle_resume cl (Success n) (render box prev s)
       = (addImageToHistory_stale cl (ImageFile n) (render box prev s))\<lparr>loadingMessage := None\<rparr>"
proof -
  have "canvasRef (magicFill (addImageToHistory_stale cl (ImageFile n) (render box prev s))) = None"
    and "canvasRef (freestyle (addImageToHistory_stale cl (ImageFile n) (render box prev s))) = None"
    by (simp_all add: addImageToHistory_stale_def Let_def render_loading [OF assms])
  then show ?thesis
    by (simp add: handleApplyFreestyle_resume_def clearMask_stale_unmounted)
qed

lemma freestyle_success_mask:
  assumes "currentImage s = Some cur" and "handleApplyFreestyle_start filt p s = (s1, Some rq)"
    and "svc rq = Success n"
  shows "freestyle (fst (handleApplyFreestyle filt box svc p s)) = (freestyle s)\<lparr>canvasRef := None\<rparr>"
proof -
  from assms(1,2) have s1: "s1 = s\<lparr>loadingMessage := Some Imagining, error := None\<rparr>"
    by (auto simp: handleApplyFreestyle_start_def split: option.splits bool.splits if_splits prod.splits)
  have l: "loadingMessage (s\<lparr>loadingMessage := Some Imagining, error := None\<rparr>) \<noteq> None"
    by simp
  show ?thesis
    using assms(2,3)
    by (simp add: handleApplyFreestyle_def s1 freestyle_resume_success [OF l]
          render_loading(1) [OF l] addImageToHistory_stale_def Let_def)
qed

lemma wf_createCanvas: "0 < w \<Longrightarrow> 0 < h \<Longrightarrow> wf_canvas (createCanvas w h)"
  by (simp add: wf_canvas_def createCanvas_sel)

lemma protected_example_facts:
  "currentImage protected_example = Some (ImageFile 10)"
  "isMaskDrawn (freestyle protected_example)"
  "canvasRef (freestyle protected_example) = Some painted_surface"
  "imgRef protected_example = Some native_4x2"
  "activeTab protected_example = Freestyle"
  by (simp_all add: protected_example_def currentImage_def at_index_def initial_state_def
        initial_mask_def)

lemma protected_example_start:
  "handleApplyFreestyle_start bilinear sepia protected_example
     = (protected_example\<lparr>loadingMessage := Some Imagining, error := None\<rparr>,
        Some (GenerateMagicFillImage (ImageFile 10)
                (MaskPng 4 2 [black, grey 64, grey 191, white, black, grey 64, grey 191, white])
                sepia))"
proof -
  have n: "naturalWidth native_4x2 = 4" "naturalHeight native_4x2 = 2"
    by (simp_all add: native_4x2_def)
  from freestyle_start_painted [OF protected_example_facts(1-3) wf_painted_surface
         protected_example_facts(4), of bilinear sepia]
  show ?thesis unfolding n complement_level_example by simp
qed

lemma protected_example_run:
  "handleApplyFreestyle bilinear (150, 100) always_succeeds sepia protected_example
     = ((addImageToHistory (ImageFile 99)
           (render (150, 100) protected_example
              (protected_example\<lparr>loadingMessage := Some Imagining, error := None\<rparr>)))
          \<lparr>loadingMessage := None\<rparr>,
        [GenerateMagicFillImage (ImageFile 10)
           (MaskPng 4 2 [black, grey 64, grey 191, white, black, grey 64, grey 191, white])
           sepia])"
proof -
  have "addImageToHistory_stale protected_example (ImageFile 99)
          (render (150, 100) protected_example
             (protected_example\<lparr>loadingMessage := Some Imagining, error := None\<rparr>))
      = addImageToHistory (ImageFile 99)
          (render (150, 100) protected_example
             (protected_example\<lparr>loadingMessage := Some Imagining, error := None\<rparr>))"
    by (rule addImageToHistory_stale_same)
       (simp_all add: render_def resizeCanvases_def Let_def split: option.splits)
  then show ?thesis
    by (simp add: handleApplyFreestyle_def protected_example_start always_succeeds_def
          freestyle_resume_success)
qed

lemma protected_example_result:
  "history (fst (handleApplyFreestyle bilinear (150, 100) always_succeeds sepia protected_example))
     = [ImageFile 10, ImageFile 99]"
  "historyIndex (fst (handleApplyFreestyle bilinear (150, 100) always_succeeds sepia protected_example))
     = 1"
  "error (fst (handleApplyFreestyle bilinear (150, 100) always_succeeds sepia protected_example))
     = None"
  "loadingMessage (fst (handleApplyFreestyle bilinear (150, 100) always_succeeds sepia protected_example))
     = None"
  "activeTab (fst (handleApplyFreestyle bilinear (150, 100) always_succeeds sepia protected_example))
     = Freestyle"
  "imgRef (fst (handleApplyFreestyle bilinear (150, 100) always_succeeds sepia protected_example))
     = Some native_4x2"
  "freestyle (fst (handleApplyFreestyle bilinear (150, 100) always_succeeds sepia protected_example))
     = (freestyle protected_example)\<lparr>canvasRef := None\<rparr>"
  "magicFill (fst (handleApplyFreestyle bilinear (150, 100) always_succeeds sepia protected_example))
     = (magicFill protected_example)\<lparr>canvasRef := None\<rparr>"
proof -
  let ?s1 = "protected_example\<lparr>loadingMessage := Some Imagining, error := None\<rparr>"
  let ?x = "(addImageToHistory (ImageFile 99) (render (150, 100) protected_example ?s1))
              \<lparr>loadingMessage := None\<rparr>"
  have x: "fst (handleApplyFreestyle bilinear (150, 100) always_succeeds sepia protected_example) = ?x"
    by (simp add: protected_example_run)
  have same: "currentImage ?s1 = currentImage protected_example"
    "activeTab ?s1 = activeTab protected_example"
    by (simp_all add: currentImage_def)
  have r1: "render (150, 100) protected_example ?s1
              = ?s1\<lparr>magicFill := (magicFill ?s1)\<lparr>canvasRef := None\<rparr>,
                    freestyle := (freestyle ?s1)\<lparr>canvasRef := None\<rparr>\<rparr>"
    using same by (simp add: render_def remount_def mounted_def Let_def)
  show "history (fst (handleApplyFreestyle bilinear (150, 100) always_succeeds sepia protected_example))
     = [ImageFile 10, ImageFile 99]"
  "historyIndex (fst (handleApplyFreestyle bilinear (150, 100) always_succeeds sepia protected_example))
     = 1"
  "error (fst (handleApplyFreestyle bilinear (150, 100) always_succeeds sepia protected_example))
     = None"
  "loadingMessage (fst (handleApplyFreestyle bilinear (150, 100) always_succeeds sepia protected_example))
     = None"
  "activeTab (fst (handleApplyFreestyle bilinear (150, 100) always_succeeds sepia protected_example))
     = Freestyle"
  "imgRef (fst (handleApplyFreestyle bilinear (150, 100) always_succeeds sepia protected_example))
     = Some native_4x2"
  "freestyle (fst (handleApplyFreestyle bilinear (150, 100) always_succeeds sepia protected_example))
     = (freestyle protected_example)\<lparr>canvasRef := None\<rparr>"
  "magicFill (fst (handleApplyFreestyle bilinear (150, 100) always_succeeds sepia protected_example))
     = (magicFill protected_example)\<lparr>canvasRef := None\<rparr>"
    unfolding x
    by (simp_all add: r1 addImageToHistory_def Let_def)
       (simp_all add: protected_example_def initial_state_def slice0_def)
qed

lemma protected_example_after:
  "freestyle (render (150, 100) protected_example
      (fst (handleApplyFreestyle bilinear (150, 100) always_succeeds sepia protected_example)))
     = (freestyle protected_example)\<lparr>canvasRef := Some (createCanvas 150 100)\<rparr>"
  "currentImage (render (150, 100) protected_example
      (fst (handleApplyFreestyle bilinear (150, 100) always_succeeds sepia protected_example)))
     = Some (ImageFile 99)"
  "imgRef (render (150, 100) protected_example
      (fst (handleApplyFreestyle bilinear (150, 100) always_succeeds sepia protected_example)))
     = Some native_4x2"
  "activeTab (render (150, 100) protected_example
      (fst (handleApplyFreestyle bilinear (150, 100) always_succeeds sepia protected_example)))
     = Freestyle"
proof -
  let ?x = "fst (handleApplyFreestyle bilinear (150, 100) always_succeeds sepia protected_example)"
  note h = protected_example_result
  have c: "currentImage ?x = Some (ImageFile 99)"
    by (simp add: currentImage_def at_index_def h)
  have m: "mounted Freestyle ?x" "\<not> mounted Magicfill ?x"
    by (simp_all add: mounted_def h c)
  have d: "currentImage ?x \<noteq> currentImage protected_example"
    by (simp add: c protected_example_facts)
  show "freestyle (render (150, 100) protected_example ?x)
     = (freestyle protected_example)\<lparr>canvasRef := Some (createCanvas 150 100)\<rparr>"
    using d m
    by (simp add: render_def Let_def resizeCanvases_def resizeCanvas_def remount_def h
          createCanvas_def)
  show "currentImage (render (150, 100) protected_example ?x) = Some (ImageFile 99)"
    using c
    by (simp add: render_def Let_def resizeCanvases_def currentImage_def split: option.splits)
  show "imgRef (render (150, 100) protected_example ?x) = Some native_4x2"
    using h(6)
    by (simp add: render_def Let_def resizeCanvases_def split: option.splits)
  show "activeTab (render (150, 100) protected_example ?x) = Freestyle"
    using h(5)
    by (simp add: render_def Let_def resizeCanvases_def split: option.splits)
qed

lemma second_request:
  "snd (handleApplyFreestyle bilinear (150, 100) always_succeeds sepia
          (render (150, 100) protected_example
             (fst (handleApplyFreestyle bilinear (150, 100) always_succeeds sepia
                     protected_example))))
     = [GenerateMagicFillImage (ImageFile 99)
          (MaskPng 4 2 [white, white, white, white, white, white, white, white]) sepia]"
proof -
  let ?t = "render (150, 100) protected_example
             (fst (handleApplyFreestyle bilinear (150, 100) always_succeeds sepia
                     protected_example))"
  note f = protected_example_after(1) and c = protected_example_after(2)
    and i = protected_example_after(3)
  have d: "isMaskDrawn (freestyle ?t)" "canvasRef (freestyle ?t) = Some (createCanvas 150 100)"
    by (simp_all add: f protected_example_facts)
  have w: "wf_canvas (createCanvas 150 100)"
    by (rule wf_createCanvas) simp_all
  have b: "\<forall>p \<in> set (bitmap (createCanvas 150 100)). alpha p = 0"
    by (simp add: createCanvas_sel transparent_def)
  have n: "naturalWidth native_4x2 = 4" "naturalHeight native_4x2 = 2"
    "0 < naturalWidth native_4x2" "0 < naturalHeight native_4x2"
    by (simp_all add: native_4x2_def)
  from freestyle_start_painted [OF c d w i n(3,4), of bilinear sepia]
  show ?thesis
    by (simp add: handleApplyFreestyle_def n(1,2) level_unpainted [OF w b] complement_black
          map_replicate_const replicate_8)
qed

text \<open>
  C5. With an image loaded, \<open>handleApplyFreestyle\<close> sends the instruction through
  the mask-fill operation with the inverted mask when the protect mask is painted
  (\<open>freestyle_start_painted\<close>) and through the maskless operation otherwise
  (\<open>freestyle_start_unpainted\<close>). On success it calls \<open>clearMask\<close>, but by then the
  mask canvas is unmounted, because its render condition requires
  \<open>!loadingMessage\<close>: the ref is \<open>null\<close>, \<open>clearMask\<close> does nothing, and the mask
  state is not cleared (\<open>freestyle_success_mask\<close>). At the state
  \<open>protected_example\<close> (freestyle tab, one image, a painted protect mask with one
  snapshot on its stroke stack), with bilinear interpolation and a service that
  succeeds: the request is the mask-fill request with the inverted mask, the
  result is appended, and afterwards \<open>isMaskDrawn\<close> and \<open>canUndoMask\<close> are still
  true and the stroke stack still holds its snapshot. The next render, of a new
  image after the render of \<open>protected_example\<close> and of its loading state, mounts
  a new canvas and sizes it to the image; it is unpainted, and a second
  submission is again sent through the mask-fill operation, with an all-white
  mask.
\<close>

theorem freestyle_mask_not_cleared:
  "snd (handleApplyFreestyle bilinear (150, 100) always_succeeds sepia protected_example)
     = [GenerateMagicFillImage (ImageFile 10)
          (MaskPng 4 2 [black, grey 64, grey 191, white, black, grey 64, grey 191, white]) sepia]
   \<and> history (fst (handleApplyFreestyle bilinear (150, 100) always_succeeds sepia protected_example))
       = [ImageFile 10, ImageFile 99]
   \<and> error (fst (handleApplyFreestyle bilinear (150, 100) always_succeeds sepia protected_example))
       = None
   \<and> isMaskDrawn (freestyle
        (fst (handleApplyFreestyle bilinear (150, 100) always_succeeds sepia protected_example)))
   \<and> canUndoMask (freestyle
        (fst (handleApplyFreestyle bilinear (150, 100) always_succeeds sepia protected_example)))
   \<and> maskHistoryRef (freestyle
        (fst (handleApplyFreestyle bilinear (150, 100) always_succeeds sepia protected_example)))
       = [\<lparr>iwidth = 2, iheight = 1, idata = [0, 0, 0, 0, 0, 0, 0, 0]\<rparr>]
   \<and> surface (render (150, 100) protected_example
        (fst (handleApplyFreestyle bilinear (150, 100) always_succeeds sepia protected_example)))
       = Some (150, 100, replicate (150 * 100) transparent)
   \<and> snd (handleApplyFreestyle bilinear (150, 100) always_succeeds sepia
          (render (150, 100) protected_example
             (fst (handleApplyFreestyle bilinear (150, 100) always_succeeds sepia
                     protected_example))))
       = [GenerateMagicFillImage (ImageFile 99)
            (MaskPng 4 2 [white, white, white, white, white, white, white, white]) sepia]"
proof -
  have a: "snd (handleApplyFreestyle bilinear (150, 100) always_succeeds sepia protected_example)
     = [GenerateMagicFillImage (ImageFile 10)
          (MaskPng 4 2 [black, grey 64, grey 191, white, black, grey 64, grey 191, white]) sepia]"
    by (simp add: protected_example_run)
  have b: "history (fst (handleApplyFreestyle bilinear (150, 100) always_succeeds sepia protected_example))
       = [ImageFile 10, ImageFile 99]"
    "error (fst (handleApplyFreestyle bilinear (150, 100) always_succeeds sepia protected_example))
       = None"
    by (simp_all add: protected_example_result)
  have c: "isMaskDrawn (freestyle
        (fst (handleApplyFreestyle bilinear (150, 100) always_succeeds sepia protected_example)))"
    "canUndoMask (freestyle
        (fst (handleApplyFreestyle bilinear (150, 100) always_succeeds sepia protected_example)))"
    "maskHistoryRef (freestyle
        (fst (handleApplyFreestyle bilinear (150, 100) always_succeeds sepia protected_example)))
       = [\<lparr>iwidth = 2, iheight = 1, idata = [0, 0, 0, 0, 0, 0, 0, 0]\<rparr>]"
    by (simp_all add: protected_example_result(7))
       (simp_all add: protected_example_def initial_mask_def initial_state_def)
  have fresh: "surface (render (150, 100) protected_example
        (fst (handleApplyFreestyle bilinear (150, 100) always_succeeds sepia protected_example)))
       = Some (150, 100, replicate (150 * 100) transparent)"
    by (simp add: surface_def activeMask_def protected_example_after createCanvas_sel)
  from a b c fresh second_request show ?thesis by blast
qed

end
